theory Spec2Isabelle
  imports Complex_Main "HOL-Library.Log_Nat"
begin

section \<open>Arrays and the failures of the array operations\<close>

text \<open>
  The softmax classifier of \<^verbatim>\<open>Assignment1/classifiers/softmax.py\<close> works on
  two-dimensional float arrays. An array of shape \<open>(R, K)\<close> is a record of its
  column count and its \<open>R\<close> rows; the column count is kept apart because an array
  with no rows still has a second dimension (\<^verbatim>\<open>W.shape[1]\<close>). Floating-point
  numbers are read as real numbers: rounding, overflow and underflow are outside
  the model. The one IEEE value with no real counterpart that the code can
  produce from exact inputs, the \<open>nan\<close> of \<open>0.0 / 0\<close> on a numpy scalar, is
  reported on the error side as \<open>NotANumber\<close>.
\<close>

datatype py_error =
  ZeroDivisionError | ValueError | IndexError | KeyError | OverflowError | NotANumber

record matrix =
  n_cols :: nat
  entries :: "real list list"

definition shape0 :: "matrix \<Rightarrow> nat" where
  "shape0 M = length (entries M)"

definition shape1 :: "matrix \<Rightarrow> nat" where
  "shape1 M = n_cols M"

text \<open>Every numpy array is rectangular: each row has \<open>shape1\<close> entries.\<close>

definition wf_matrix :: "matrix \<Rightarrow> bool" where
  "wf_matrix M = list_all (\<lambda>r. length r = n_cols M) (entries M)"

text \<open>Indexing a one-dimensional array with a numpy integer: negative indices count
  from the end, anything else out of range raises.\<close>

definition np_index :: "'a list \<Rightarrow> int \<Rightarrow> py_error + 'a" where
  "np_index xs i =
     (if 0 \<le> i \<and> i < int (length xs) then Inr (xs ! nat i)
      else if i < 0 \<and> - int (length xs) \<le> i then Inr (xs ! nat (int (length xs) + i))
      else Inl IndexError)"

text \<open>\<^verbatim>\<open>x.dot(W)\<close> for a vector \<open>x\<close> and a matrix \<open>W\<close>.\<close>

definition np_dot_vec :: "real list \<Rightarrow> matrix \<Rightarrow> py_error + real list" where
  "np_dot_vec x W =
     (if length x \<noteq> shape0 W then Inl ValueError
      else Inr (map (\<lambda>j. sum_list (map (\<lambda>k. x ! k * entries W ! k ! j) [0..<length x]))
                  [0..<shape1 W]))"

text \<open>\<^verbatim>\<open>A.dot(B)\<close> for two matrices.\<close>

definition np_dot :: "matrix \<Rightarrow> matrix \<Rightarrow> py_error + matrix" where
  "np_dot A B =
     (if shape1 A \<noteq> shape0 B then Inl ValueError
      else Inr \<lparr>n_cols = shape1 B,
                entries = map (\<lambda>r. map (\<lambda>j. sum_list (map (\<lambda>k. r ! k * entries B ! k ! j)
                                                       [0..<shape1 A]))
                                    [0..<shape1 B])
                              (entries A)\<rparr>)"

text \<open>\<^verbatim>\<open>X.T\<close>.\<close>

definition np_transpose :: "matrix \<Rightarrow> matrix" where
  "np_transpose X =
     \<lparr>n_cols = shape0 X,
      entries = map (\<lambda>k. map (\<lambda>i. entries X ! i ! k) [0..<shape0 X]) [0..<shape1 X]\<rparr>"

text \<open>\<^verbatim>\<open>np.max\<close> of a one-dimensional array; an empty array has no maximum.\<close>

definition np_max :: "real list \<Rightarrow> py_error + real" where
  "np_max xs = (case xs of [] \<Rightarrow> Inl ValueError | x # rest \<Rightarrow> Inr (fold max rest x))"

text \<open>\<^verbatim>\<open>np.max(M, axis = 1)\<close>: the reduced axis must not be empty.\<close>

definition np_max_axis1 :: "matrix \<Rightarrow> py_error + real list" where
  "np_max_axis1 M =
     (if shape1 M = 0 then Inl ValueError
      else Inr (map (\<lambda>r. fold max (tl r) (hd r)) (entries M)))"

definition np_sum :: "real list \<Rightarrow> real" where
  "np_sum xs = sum_list xs"

definition np_sum_all :: "matrix \<Rightarrow> real" where
  "np_sum_all M = sum_list (map sum_list (entries M))"

definition np_sum_axis1 :: "matrix \<Rightarrow> real list" where
  "np_sum_axis1 M = map sum_list (entries M)"

definition np_exp :: "real list \<Rightarrow> real list" where
  "np_exp xs = map exp xs"

definition map_matrix :: "(real \<Rightarrow> real) \<Rightarrow> matrix \<Rightarrow> matrix" where
  "map_matrix f M = M\<lparr>entries := map (map f) (entries M)\<rparr>"

text \<open>Elementwise operations on two arrays of one shape.\<close>

definition zip_matrix :: "(real \<Rightarrow> real \<Rightarrow> real) \<Rightarrow> matrix \<Rightarrow> matrix \<Rightarrow> matrix" where
  "zip_matrix f A B = A\<lparr>entries := map2 (map2 f) (entries A) (entries B)\<rparr>"

text \<open>An operation between the rows of a matrix and a column vector
  (\<^verbatim>\<open>v.reshape(-1, 1)\<close>), one entry of the vector per row.\<close>

definition rowwise :: "(real \<Rightarrow> real \<Rightarrow> real) \<Rightarrow> matrix \<Rightarrow> real list \<Rightarrow> matrix" where
  "rowwise f M v = M\<lparr>entries := map2 (\<lambda>r c. map (\<lambda>a. f a c) r) (entries M) v\<rparr>"

definition zeros_like :: "matrix \<Rightarrow> matrix" where
  "zeros_like W = map_matrix (\<lambda>_. 0) W"

section \<open>The naive softmax loss\<close>

text \<open>\<^verbatim>\<open>dW[:, j] += v\<close>: entry \<open>j\<close> of every row grows by the matching entry of \<open>v\<close>.\<close>

definition add_to_column :: "matrix \<Rightarrow> nat \<Rightarrow> real list \<Rightarrow> matrix" where
  "add_to_column dW j v =
     dW\<lparr>entries := map2 (\<lambda>row a. row[j := row ! j + a]) (entries dW) v\<rparr>"

text \<open>The body of the loop over the classes (lines 45 to 48).\<close>

definition class_step :: "real list \<Rightarrow> int \<Rightarrow> real list \<Rightarrow> nat \<Rightarrow> matrix \<Rightarrow> matrix" where
  "class_step softmax yi xi j dW =
     (if int j = yi then add_to_column dW j (map (\<lambda>a. (softmax ! j - 1) * a) xi)
      else add_to_column dW j (map (\<lambda>a. softmax ! j * a) xi))"

text \<open>Line 41: the scores less their maximum.\<close>

definition shift_scores :: "real list \<Rightarrow> py_error + real list" where
  "shift_scores scores0 =
     (case np_max scores0 of
        Inl e \<Rightarrow> Inl e
      | Inr m \<Rightarrow> Inr (map (\<lambda>s. s - m) scores0))"

text \<open>Lines 41 and 42: the shifted scores, exponentiated and normalised.\<close>

definition softmax_of_scores :: "real list \<Rightarrow> py_error + real list" where
  "softmax_of_scores scores0 =
     (case shift_scores scores0 of
        Inl e \<Rightarrow> Inl e
      | Inr scores \<Rightarrow> Inr (map (\<lambda>a. a / np_sum (np_exp scores)) (np_exp scores)))"

text \<open>Lines 41 to 48: what one sample does, from its scores on, to the pair of the
  running loss and the running gradient (\<open>xi\<close> is the sample \<^verbatim>\<open>X[i]\<close>).\<close>

definition scores_step ::
  "real list \<Rightarrow> int list \<Rightarrow> real list \<Rightarrow> nat \<Rightarrow> nat \<Rightarrow> real \<times> matrix \<Rightarrow>
   py_error + real \<times> matrix" where
  "scores_step scores0 y xi i num_classes st =
     (case softmax_of_scores scores0 of
        Inl e \<Rightarrow> Inl e
      | Inr softmax \<Rightarrow>
         (case np_index y (int i) of
            Inl e \<Rightarrow> Inl e
          | Inr yi \<Rightarrow>
             (case np_index softmax yi of
                Inl e \<Rightarrow> Inl e
              | Inr p \<Rightarrow>
                  Inr (fst st - ln p,
                       fold (class_step softmax yi xi) [0..<num_classes] (snd st)))))"

text \<open>The body of the loop over the samples (lines 40 to 48).\<close>

definition sample_step ::
  "matrix \<Rightarrow> matrix \<Rightarrow> int list \<Rightarrow> nat \<Rightarrow> real \<times> matrix \<Rightarrow> py_error + real \<times> matrix" where
  "sample_step W X y i st =
     (case np_dot_vec (entries X ! i) W of
        Inl e \<Rightarrow> Inl e
      | Inr scores0 \<Rightarrow> scores_step scores0 y (entries X ! i) i (shape1 W) st)"

fun loop_samples ::
  "matrix \<Rightarrow> matrix \<Rightarrow> int list \<Rightarrow> nat list \<Rightarrow> real \<times> matrix \<Rightarrow> py_error + real \<times> matrix" where
  "loop_samples W X y [] st = Inr st"
| "loop_samples W X y (i # rest) st =
     (case sample_step W X y i st of
        Inl e \<Rightarrow> Inl e
      | Inr st' \<Rightarrow> loop_samples W X y rest st')"

text \<open>After the loop the loss is still a Python float when no sample was seen, and
  dividing it by the integer \<open>0\<close> raises.\<close>

definition softmax_loss_naive ::
  "matrix \<Rightarrow> matrix \<Rightarrow> int list \<Rightarrow> real \<Rightarrow> py_error + real \<times> matrix" where
  "softmax_loss_naive W X y reg =
     (let num_train = shape0 X
      in case loop_samples W X y [0..<num_train] (0, zeros_like W) of
           Inl e \<Rightarrow> Inl e
         | Inr (loss, dW) \<Rightarrow>
             if num_train = 0 then Inl ZeroDivisionError
             else
               let loss = loss / real num_train;
                   loss = loss + 0.5 * reg * np_sum_all (zip_matrix (*) W W);
                   dW = map_matrix (\<lambda>a. a / real num_train) dW;
                   dW = zip_matrix (+) dW (map_matrix (\<lambda>a. reg * a) W)
               in Inr (loss, dW))"

section \<open>The vectorized softmax loss\<close>

text \<open>The index arrays of \<^verbatim>\<open>softmax[range(num_train), y]\<close> are broadcast against
  each other: equal lengths pair up, a single index is repeated, and any other
  combination raises.\<close>

definition index_pairs :: "nat \<Rightarrow> int list \<Rightarrow> py_error + (nat \<times> int) list" where
  "index_pairs n y =
     (if length y = n then Inr (zip [0..<n] y)
      else if length y = 1 then Inr (map (\<lambda>i. (i, y ! 0)) [0..<n])
      else if n = 1 then Inr (map (\<lambda>c. (0, c)) y)
      else Inl IndexError)"

text \<open>Reading the selected entries; an index out of range raises.\<close>

fun take_entries :: "matrix \<Rightarrow> (nat \<times> int) list \<Rightarrow> py_error + real list" where
  "take_entries M [] = Inr []"
| "take_entries M ((i, c) # rest) =
     (if shape0 M \<le> i then Inl IndexError
      else case np_index (entries M ! i) c of
             Inl e \<Rightarrow> Inl e
           | Inr v \<Rightarrow>
               (case take_entries M rest of Inl e \<Rightarrow> Inl e | Inr vs \<Rightarrow> Inr (v # vs)))"

text \<open>Writing values back to the selected entries (the indices were checked by the
  read before).\<close>

definition np_position :: "nat \<Rightarrow> int \<Rightarrow> nat" where
  "np_position n c = nat (if c < 0 then int n + c else c)"

fun put_entries :: "matrix \<Rightarrow> (nat \<times> int) list \<Rightarrow> real list \<Rightarrow> matrix" where
  "put_entries M ((i, c) # rest) (v # vs) =
     put_entries
       (M\<lparr>entries := (entries M)[i := (entries M ! i)[np_position (shape1 M) c := v]]\<rparr>)
       rest vs"
| "put_entries M _ _ = M"

text \<open>Line 86: every row of the scores less its maximum.\<close>

definition shift_rows :: "matrix \<Rightarrow> py_error + matrix" where
  "shift_rows scores0 =
     (case np_max_axis1 scores0 of
        Inl e \<Rightarrow> Inl e
      | Inr m \<Rightarrow> Inr (rowwise (-) scores0 m))"

text \<open>Lines 86 and 87: the matrix of the probabilities.\<close>

definition softmax_rows :: "matrix \<Rightarrow> py_error + matrix" where
  "softmax_rows scores0 =
     (case shift_rows scores0 of
        Inl e \<Rightarrow> Inl e
      | Inr scores \<Rightarrow>
          let e = map_matrix exp scores
          in Inr (rowwise (/) e (np_sum_axis1 e)))"

text \<open>Lines 86 to 96: the loss and the gradient from the matrix of the scores. The
  loss is a numpy scalar here, and dividing it by the integer \<open>0\<close> gives \<open>nan\<close>;
  nothing after that division can raise, so the \<open>nan\<close> is what the function returns.\<close>

definition vectorized_from_scores ::
  "matrix \<Rightarrow> matrix \<Rightarrow> int list \<Rightarrow> real \<Rightarrow> matrix \<Rightarrow> py_error + real \<times> matrix" where
  "vectorized_from_scores W X y reg scores0 =
     (let num_train = shape0 X
      in case softmax_rows scores0 of
           Inl e \<Rightarrow> Inl e
         | Inr softmax \<Rightarrow>
            (case index_pairs num_train y of
               Inl e \<Rightarrow> Inl e
             | Inr idx \<Rightarrow>
                (case take_entries softmax idx of
                   Inl e \<Rightarrow> Inl e
                 | Inr ps \<Rightarrow>
                     if num_train = 0 then Inl NotANumber
                     else
                       let loss = 0 - np_sum (map ln ps);
                           loss = loss / real num_train;
                           loss = loss + 0.5 * reg * np_sum_all (zip_matrix (*) W W);
                           softmax = put_entries softmax idx (map (\<lambda>p. p - 1) ps)
                       in (case np_dot (np_transpose X) softmax of
                             Inl e \<Rightarrow> Inl e
                           | Inr dW \<Rightarrow>
                               let dW = map_matrix (\<lambda>a. a / real num_train) dW;
                                   dW = zip_matrix (+) dW (map_matrix (\<lambda>a. reg * a) W)
                               in Inr (loss, dW)))))"

definition softmax_loss_vectorized ::
  "matrix \<Rightarrow> matrix \<Rightarrow> int list \<Rightarrow> real \<Rightarrow> py_error + real \<times> matrix" where
  "softmax_loss_vectorized W X y reg =
     (case np_dot X W of
        Inl e \<Rightarrow> Inl e
      | Inr scores0 \<Rightarrow> vectorized_from_scores W X y reg scores0)"

section \<open>Valid inputs\<close>

text \<open>\<open>W\<close> of shape \<open>(D, C)\<close>, \<open>X\<close> of shape \<open>(N, D)\<close>, one label in \<open>[0, C)\<close> for every
  row of \<open>X\<close>.\<close>

definition valid_input :: "matrix \<Rightarrow> matrix \<Rightarrow> int list \<Rightarrow> bool" where
  "valid_input W X y \<longleftrightarrow>
     wf_matrix W \<and> wf_matrix X \<and> shape1 X = shape0 W \<and> length y = shape0 X \<and>
     list_all (\<lambda>c. 0 \<le> c \<and> c < int (shape1 W)) y"

section \<open>Tensors of the convolutional network\<close>

text \<open>
  \<^verbatim>\<open>Assignment2/daseCV/classifiers/cnn.py\<close> works on arrays of any rank. A tensor
  is its shape, its dtype and its values in row-major order. The dtypes are the
  floating-point precisions; a cast only changes the dtype, since rounding is outside
  the model.
\<close>

datatype dtype = Float16 | Float32 | Float64

record tensor =
  shape :: "nat list"
  dtype :: dtype
  vals :: "real list"

definition astype :: "tensor \<Rightarrow> dtype \<Rightarrow> tensor" where
  "astype t d = t\<lparr>dtype := d\<rparr>"

text \<open>The dtype of an operation between two arrays is the wider one.\<close>

fun result_type :: "dtype \<Rightarrow> dtype \<Rightarrow> dtype" where
  "result_type Float64 _ = Float64"
| "result_type _ Float64 = Float64"
| "result_type Float32 _ = Float32"
| "result_type _ Float32 = Float32"
| "result_type Float16 Float16 = Float16"

text \<open>\<^verbatim>\<open>np.zeros(n)\<close> and \<^verbatim>\<open>np.random.randn(d0, ..., dk)\<close> make float64 arrays and
  refuse a negative dimension. The random generator is a stream of samples and a
  position in it; \<open>randn\<close> returns the position after the samples it has drawn.\<close>

definition np_zeros :: "int \<Rightarrow> py_error + tensor" where
  "np_zeros n =
     (if n < 0 then Inl ValueError
      else Inr \<lparr>shape = [nat n], dtype = Float64, vals = replicate (nat n) 0\<rparr>)"

definition randn :: "(nat \<Rightarrow> real) \<Rightarrow> nat \<Rightarrow> int list \<Rightarrow> py_error + tensor \<times> nat" where
  "randn rnd pos dims =
     (if list_ex (\<lambda>d. d < 0) dims then Inl ValueError
      else let n = prod_list (map nat dims)
           in Inr (\<lparr>shape = map nat dims, dtype = Float64, vals = map rnd [pos..<pos + n]\<rparr>,
                   pos + n))"

text \<open>A Python float times an array keeps the dtype of the array.\<close>

definition np_scale :: "real \<Rightarrow> tensor \<Rightarrow> tensor" where
  "np_scale r t = t\<lparr>vals := map (\<lambda>v. r * v) (vals t)\<rparr>"

text \<open>\<^verbatim>\<open>np.sum(W ** 2)\<close>.\<close>

definition np_sum_sq :: "tensor \<Rightarrow> real" where
  "np_sum_sq t = sum_list (map (\<lambda>v. v\<^sup>2) (vals t))"

text \<open>The sum of two arrays. Arrays of one shape are added entry by entry. Otherwise
  the shapes are aligned at their last dimension and broadcast: two dimensions agree
  when they are equal or one of them is 1, and an entry of the result reads each
  operand at its own index, with 0 along the dimensions that were stretched.\<close>

definition broadcast_shape :: "nat list \<Rightarrow> nat list \<Rightarrow> nat list option" where
  "broadcast_shape sa sb =
     (let n = max (length sa) (length sb);
          pa = replicate (n - length sa) 1 @ sa;
          pb = replicate (n - length sb) 1 @ sb
      in if list_all2 (\<lambda>x y. x = y \<or> x = 1 \<or> y = 1) pa pb
         then Some (map2 (\<lambda>x y. if x = 1 then y else x) pa pb)
         else None)"

fun indices :: "nat list \<Rightarrow> nat list list" where
  "indices [] = [[]]"
| "indices (d # ds) = concat (map (\<lambda>i. map ((#) i) (indices ds)) [0..<d])"

fun offset :: "nat list \<Rightarrow> nat list \<Rightarrow> nat" where
  "offset (d # ds) (i # rest) = i * prod_list ds + offset ds rest"
| "offset _ _ = 0"

definition read_broadcast :: "tensor \<Rightarrow> nat list \<Rightarrow> real" where
  "read_broadcast t idx =
     (let own = drop (length idx - length (shape t)) idx
      in vals t ! offset (shape t) (map2 (\<lambda>d i. if d = 1 then 0 else i) (shape t) own))"

definition np_add :: "tensor \<Rightarrow> tensor \<Rightarrow> py_error + tensor" where
  "np_add a b =
     (if shape a = shape b
      then Inr \<lparr>shape = shape a, dtype = result_type (dtype a) (dtype b),
                vals = map2 (+) (vals a) (vals b)\<rparr>
      else case broadcast_shape (shape a) (shape b) of
             None \<Rightarrow> Inl ValueError
           | Some s \<Rightarrow>
               Inr \<lparr>shape = s, dtype = result_type (dtype a) (dtype b),
                    vals = map (\<lambda>idx. read_broadcast a idx + read_broadcast b idx)
                               (indices s)\<rparr>)"

section \<open>The three-layer convolutional network\<close>

text \<open>Running one fallible step after another: the first failure is the result.\<close>

definition and_then :: "py_error + 'a \<Rightarrow> ('a \<Rightarrow> py_error + 'b) \<Rightarrow> py_error + 'b" where
  "and_then m f = (case m of Inl e \<Rightarrow> Inl e | Inr v \<Rightarrow> f v)"

record ThreeLayerConvNet =
  params :: "string \<rightharpoonup> tensor"
  reg :: real
  net_dtype :: dtype

text \<open>
  \<^verbatim>\<open>int(a / 4)\<close> for a Python integer \<open>a\<close>. The division is a float division: its
  result is the double nearest to the quotient, ties going to the even significand,
  and a quotient too large for a double raises. Dividing by 4 only moves the
  exponent, so the double is a quarter of \<open>a\<close> rounded to 53 significant bits; \<open>int\<close>
  then drops the fraction.
\<close>

definition round53 :: "nat \<Rightarrow> nat" where
  "round53 m =
     (let s = floorlog 2 m - 53; q = m div 2 ^ s; r = m mod 2 ^ s
      in if 2 ^ s < 2 * r \<or> (2 * r = 2 ^ s \<and> odd q) then (q + 1) * 2 ^ s else q * 2 ^ s)"

definition int_of_quarter :: "int \<Rightarrow> py_error + int" where
  "int_of_quarter a =
     (let f = round53 (nat \<bar>a\<bar>)
      in if 2 ^ 1026 \<le> f then Inl OverflowError
         else Inr (if 0 \<le> a then int (f div 4) else - int (f div 4)))"

text \<open>The constructor (lines 37 to 67): it draws the weights, in the order of the
  source, and casts every parameter to \<open>dtype\<close>.\<close>

definition init ::
  "(nat \<Rightarrow> real) \<Rightarrow> int \<times> int \<times> int \<Rightarrow> int \<Rightarrow> int \<Rightarrow> int \<Rightarrow> int \<Rightarrow> real \<Rightarrow> real \<Rightarrow> dtype \<Rightarrow>
   py_error + ThreeLayerConvNet" where
  "init rnd input_dim num_filters filter_size hidden_dim num_classes weight_scale rg dt =
     (case input_dim of (C, H, W) \<Rightarrow>
      and_then (randn rnd 0 [num_filters, C, filter_size, filter_size]) (\<lambda>(r1, pos1).
      and_then (np_zeros num_filters) (\<lambda>b1.
      and_then (int_of_quarter (H * W)) (\<lambda>quarter.
      and_then (randn rnd pos1 [quarter * num_filters, hidden_dim]) (\<lambda>(r2, pos2).
      and_then (np_zeros hidden_dim) (\<lambda>b2.
      and_then (randn rnd pos2 [hidden_dim, num_classes]) (\<lambda>(r3, pos3).
      and_then (np_zeros num_classes) (\<lambda>b3.
        let ps = [''W1'' \<mapsto> np_scale weight_scale r1, ''b1'' \<mapsto> b1,
                  ''W2'' \<mapsto> np_scale weight_scale r2, ''b2'' \<mapsto> b2,
                  ''W3'' \<mapsto> np_scale weight_scale r3, ''b3'' \<mapsto> b3]
        in Inr \<lparr>params = (\<lambda>k. map_option (\<lambda>v. astype v dt) (ps k)),
                reg = rg, net_dtype = dt\<rparr>))))))))"

text \<open>
  The layers that \<open>loss\<close> calls (\<^verbatim>\<open>daseCV.layers\<close>, \<^verbatim>\<open>daseCV.fast_layers\<close>,
  \<^verbatim>\<open>daseCV.layer_utils\<close>) are not among the sources. They are parameters of the
  model: any functions of these types, each free to fail, with caches of any type.
\<close>

record conv_param =
  conv_stride :: int
  conv_pad :: int

record pool_param =
  pool_height :: int
  pool_width :: int
  pool_stride :: int

record ('a, 'b, 'c) layers =
  conv_relu_pool_forward ::
    "tensor \<Rightarrow> tensor \<Rightarrow> tensor \<Rightarrow> conv_param \<Rightarrow> pool_param \<Rightarrow> py_error + tensor \<times> 'a"
  affine_forward :: "tensor \<Rightarrow> tensor \<Rightarrow> tensor \<Rightarrow> py_error + tensor \<times> 'b"
  relu_forward :: "tensor \<Rightarrow> py_error + tensor \<times> 'c"
  softmax_loss :: "tensor \<Rightarrow> int list \<Rightarrow> py_error + real \<times> tensor"
  affine_backward :: "tensor \<Rightarrow> 'b \<Rightarrow> py_error + tensor \<times> tensor \<times> tensor"
  relu_backward :: "tensor \<Rightarrow> 'c \<Rightarrow> py_error + tensor"
  conv_relu_pool_backward :: "tensor \<Rightarrow> 'a \<Rightarrow> py_error + tensor \<times> tensor \<times> tensor"

datatype loss_result = Scores tensor | LossGrads real "string \<rightharpoonup> tensor"

definition get_param :: "(string \<rightharpoonup> tensor) \<Rightarrow> string \<Rightarrow> py_error + tensor" where
  "get_param ps k = (case ps k of None \<Rightarrow> Inl KeyError | Some t \<Rightarrow> Inr t)"

text \<open>Lines 82 and 83: the filter size is the third dimension of \<open>W1\<close>, the padding
  is a floor division.\<close>

definition conv_param_of :: "tensor \<Rightarrow> py_error + conv_param" where
  "conv_param_of W1 =
     (if length (shape W1) \<le> 2 then Inl IndexError
      else let filter_size = int (shape W1 ! 2)
           in Inr \<lparr>conv_stride = 1, conv_pad = (filter_size - 1) div 2\<rparr>)"

definition pool_param_of :: pool_param where
  "pool_param_of = \<lparr>pool_height = 2, pool_width = 2, pool_stride = 2\<rparr>"

text \<open>Lines 118 to 136: the loss and the gradients, from the scores and the caches of
  the forward pass.\<close>

definition backward ::
  "('a, 'b, 'c) layers \<Rightarrow> real \<Rightarrow> tensor \<Rightarrow> tensor \<Rightarrow> tensor \<Rightarrow> tensor \<Rightarrow> 'a \<Rightarrow> 'b \<Rightarrow> 'c \<Rightarrow> 'b \<Rightarrow>
   int list \<Rightarrow> py_error + loss_result" where
  "backward L rg W1 W2 W3 scores cache1 cache2 cache2_relu cache3 y =
     and_then (softmax_loss L scores y) (\<lambda>(loss0, dout).
       let loss = loss0 + rg * 0.5 * (np_sum_sq W1 + np_sum_sq W2 + np_sum_sq W3)
       in
     and_then (affine_backward L dout cache3) (\<lambda>(dout3, dW3, db3).
     and_then (relu_backward L dout3 cache2_relu) (\<lambda>dout2_relu.
     and_then (affine_backward L dout2_relu cache2) (\<lambda>(dout2, dW2, db2).
     and_then (conv_relu_pool_backward L dout2 cache1) (\<lambda>(dout1, dW1, db1).
     and_then (np_add dW3 (np_scale rg W3)) (\<lambda>gW3.
     and_then (np_add dW2 (np_scale rg W2)) (\<lambda>gW2.
     and_then (np_add dW1 (np_scale rg W1)) (\<lambda>gW1.
       Inr (LossGrads loss
              [''W3'' \<mapsto> gW3, ''b3'' \<mapsto> db3, ''W2'' \<mapsto> gW2, ''b2'' \<mapsto> db2,
               ''W1'' \<mapsto> gW1, ''b1'' \<mapsto> db1])))))))))"

text \<open>\<open>loss\<close> (lines 76 to 136); \<open>y\<close> is \<open>None\<close> at inference.\<close>

definition loss ::
  "('a, 'b, 'c) layers \<Rightarrow> ThreeLayerConvNet \<Rightarrow> tensor \<Rightarrow> int list option \<Rightarrow>
   py_error + loss_result" where
  "loss L net X y =
     and_then (get_param (params net) ''W1'') (\<lambda>W1.
     and_then (get_param (params net) ''b1'') (\<lambda>b1.
     and_then (get_param (params net) ''W2'') (\<lambda>W2.
     and_then (get_param (params net) ''b2'') (\<lambda>b2.
     and_then (get_param (params net) ''W3'') (\<lambda>W3.
     and_then (get_param (params net) ''b3'') (\<lambda>b3.
     and_then (conv_param_of W1) (\<lambda>conv_param.
     and_then (conv_relu_pool_forward L X W1 b1 conv_param pool_param_of) (\<lambda>(out1, cache1).
     and_then (affine_forward L out1 W2 b2) (\<lambda>(out2, cache2).
     and_then (relu_forward L out2) (\<lambda>(out2_relu, cache2_relu).
     and_then (affine_forward L out2_relu W3 b3) (\<lambda>(scores, cache3).
       case y of
         None \<Rightarrow> Inr (Scores scores)
       | Some labels \<Rightarrow>
           backward L (reg net) W1 W2 W3 scores cache1 cache2 cache2_relu cache3 labels)))))))))))"

section \<open>The loss and its gradient, as stated\<close>

text \<open>
  What the two functions are meant to compute, written with sums and without the
  subtraction of the maximum. The results of the code are compared with these.
\<close>

text \<open>The matrix of shape \<open>(R, K)\<close> with entry \<open>f k j\<close> in row \<open>k\<close> and column \<open>j\<close>.\<close>

definition mk_matrix :: "nat \<Rightarrow> nat \<Rightarrow> (nat \<Rightarrow> nat \<Rightarrow> real) \<Rightarrow> matrix" where
  "mk_matrix R K f = \<lparr>n_cols = K, entries = map (\<lambda>k. map (f k) [0..<K]) [0..<R]\<rparr>"

text \<open>The softmax probability of class \<open>j\<close> for the row of scores \<open>s\<close>.\<close>

definition softmax_prob :: "real list \<Rightarrow> nat \<Rightarrow> real" where
  "softmax_prob s j = exp (s ! j) / sum_list (map exp s)"

text \<open>The raw class scores of sample \<open>i\<close>: row \<open>i\<close> of \<open>X\<close> times \<open>W\<close>.\<close>

definition class_scores :: "matrix \<Rightarrow> matrix \<Rightarrow> nat \<Rightarrow> real list" where
  "class_scores W X i =
     map (\<lambda>j. \<Sum>k<shape0 W. entries X ! i ! k * entries W ! k ! j) [0..<shape1 W]"

text \<open>The mean over the samples of the negative log of the probability of the true
  class, plus \<open>0.5 * reg * sum (W\<^sup>2)\<close>.\<close>

definition cross_entropy_loss :: "matrix \<Rightarrow> matrix \<Rightarrow> int list \<Rightarrow> real \<Rightarrow> real" where
  "cross_entropy_loss W X y rg =
     (\<Sum>i<shape0 X. - ln (softmax_prob (class_scores W X i) (nat (y ! i)))) / real (shape0 X)
     + 0.5 * rg * (\<Sum>k<shape0 W. \<Sum>j<shape1 W. (entries W ! k ! j)\<^sup>2)"

text \<open>Entry \<open>(k, j)\<close> of the gradient: the mean over the samples of \<open>X[i][k]\<close> times the
  probability of class \<open>j\<close>, less 1 for the true class, plus \<open>reg * W[k][j]\<close>.\<close>

definition loss_gradient :: "matrix \<Rightarrow> matrix \<Rightarrow> int list \<Rightarrow> real \<Rightarrow> nat \<Rightarrow> nat \<Rightarrow> real" where
  "loss_gradient W X y rg k j =
     (\<Sum>i<shape0 X. (softmax_prob (class_scores W X i) j - (if int j = y ! i then 1 else 0))
                      * entries X ! i ! k) / real (shape0 X)
     + rg * entries W ! k ! j"

text \<open>The zero matrix of shape \<open>(D, C)\<close>.\<close>

definition zero_matrix :: "nat \<Rightarrow> nat \<Rightarrow> matrix" where
  "zero_matrix D C = \<lparr>n_cols = C, entries = replicate D (replicate C 0)\<rparr>"

text \<open>\<open>W\<close> with the entry in row \<open>k\<close> and column \<open>j\<close> replaced by \<open>t\<close>: the loss as a
  function of one weight.\<close>

definition set_entry :: "matrix \<Rightarrow> nat \<Rightarrow> nat \<Rightarrow> real \<Rightarrow> matrix" where
  "set_entry W k j t = W\<lparr>entries := (entries W)[k := (entries W ! k)[j := t]]\<rparr>"

section \<open>Examples, and the conventions of the layers that are not among the sources\<close>

text \<open>The keys of the parameter dictionary.\<close>

definition param_keys :: "string set" where
  "param_keys = {''W1'', ''b1'', ''W2'', ''b2'', ''W3'', ''b3''}"

text \<open>
  An instance of the layers for the examples: the outputs have the shapes of the
  conventional layers and all their values are zero; the caches keep the inputs.
\<close>

definition zero_tensor :: "nat list \<Rightarrow> tensor" where
  "zero_tensor s = \<lparr>shape = s, dtype = Float64, vals = replicate (prod_list s) 0\<rparr>"

definition zeros_of :: "tensor \<Rightarrow> tensor" where
  "zeros_of t = t\<lparr>vals := map (\<lambda>_. 0) (vals t)\<rparr>"

definition zero_layers :: "(tensor \<times> tensor \<times> tensor, tensor \<times> tensor \<times> tensor, tensor) layers" where
  "zero_layers =
     \<lparr>conv_relu_pool_forward = (\<lambda>x w b cp pp.
        case (shape x, shape w) of
          (n # _, f # _) \<Rightarrow> Inr (zero_tensor [n, f, 1, 1], (x, w, b))
        | _ \<Rightarrow> Inl ValueError),
      affine_forward = (\<lambda>x w b.
        case (shape x, shape w) of
          (n # _, [d, m]) \<Rightarrow> Inr (zero_tensor [n, m], (x, w, b))
        | _ \<Rightarrow> Inl ValueError),
      relu_forward = (\<lambda>x. Inr (x, x)),
      softmax_loss = (\<lambda>s y. Inr (0, zeros_of s)),
      affine_backward = (\<lambda>dout (x, w, b). Inr (zeros_of x, zeros_of w, zeros_of b)),
      relu_backward = (\<lambda>dout c. Inr dout),
      conv_relu_pool_backward = (\<lambda>dout (x, w, b). Inr (zeros_of x, zeros_of w, zeros_of b))\<rparr>"

text \<open>A network and a batch of one image for the examples.\<close>

definition example_net :: ThreeLayerConvNet where
  "example_net =
     \<lparr>params = [''W1'' \<mapsto> \<lparr>shape = [1, 1, 1, 1], dtype = Float32, vals = [1]\<rparr>,
                 ''b1'' \<mapsto> \<lparr>shape = [1], dtype = Float32, vals = [0]\<rparr>,
                 ''W2'' \<mapsto> \<lparr>shape = [1, 1], dtype = Float32, vals = [2]\<rparr>,
                 ''b2'' \<mapsto> \<lparr>shape = [1], dtype = Float32, vals = [0]\<rparr>,
                 ''W3'' \<mapsto> \<lparr>shape = [1, 2], dtype = Float32, vals = [1, 3]\<rparr>,
                 ''b3'' \<mapsto> \<lparr>shape = [2], dtype = Float32, vals = [0, 0]\<rparr>],
      reg = 1 / 2, net_dtype = Float32\<rparr>"

definition example_X :: tensor where
  "example_X = \<lparr>shape = [1, 1, 2, 2], dtype = Float32, vals = [1, 2, 3, 4]\<rparr>"

text \<open>
  Modelled from the spec: the forward layers \<open>conv_relu_pool_forward\<close>,
  \<open>affine_forward\<close> and \<open>relu_forward\<close> are not among the sources, and the spec only
  calls them library functions "with the conventional forward/backward-with-cache
  contract". Of that contract the shapes are stated here: the convolution block keeps
  the batch dimension, the affine layer maps \<open>N\<close> inputs and a weight matrix of shape
  \<open>(D, M)\<close> to an output of shape \<open>(N, M)\<close>, and the rectifier keeps the shape.
\<close>

definition conventional_shapes :: "('a, 'b, 'c) layers \<Rightarrow> bool" where
  "conventional_shapes L \<longleftrightarrow>
     (\<forall>x w b cp pp out c. conv_relu_pool_forward L x w b cp pp = Inr (out, c) \<longrightarrow>
        (\<exists>n xs os. shape x = n # xs \<and> shape out = n # os)) \<and>
     (\<forall>x w b out c. affine_forward L x w b = Inr (out, c) \<longrightarrow>
        (\<exists>n xs d m. shape x = n # xs \<and> shape w = [d, m] \<and> shape out = [n, m])) \<and>
     (\<forall>x out c. relu_forward L x = Inr (out, c) \<longrightarrow> shape out = shape x)"

text \<open>
  Modelled from the spec: the convolution layer is not among the sources. Along one
  spatial dimension of size \<open>H\<close>, a conventional convolution with a filter of size
  \<open>HH\<close> gives \<open>1 + (H + 2 * pad - HH) / stride\<close> outputs.
\<close>

definition conv_out_size :: "int \<Rightarrow> int \<Rightarrow> conv_param \<Rightarrow> int" where
  "conv_out_size H HH cp = 1 + (H + 2 * conv_pad cp - HH) div conv_stride cp"

text \<open>
  Modelled from the spec: the pooling layer is not among the sources. Along one
  spatial dimension of size \<open>H\<close>, a conventional pooling window of size \<open>ph\<close> gives
  \<open>1 + (H - ph) / stride\<close> outputs; the 2x2 window with stride 2 halves the
  dimension.
\<close>

definition pool_out_size :: "int \<Rightarrow> int \<Rightarrow> int \<Rightarrow> int" where
  "pool_out_size H ph st = 1 + (H - ph) div st"

section \<open>Matrices given by their entries\<close>

lemma mk_matrix_shape [simp]:
  "shape0 (mk_matrix R K f) = R" "shape1 (mk_matrix R K f) = K"
  "n_cols (mk_matrix R K f) = K" "length (entries (mk_matrix R K f)) = R"
  by (simp_all add: mk_matrix_def shape0_def shape1_def)

lemma mk_matrix_nth [simp]:
  "k < R \<Longrightarrow> entries (mk_matrix R K f) ! k = map (f k) [0..<K]"
  by (simp add: mk_matrix_def)

lemma mk_matrix_wf [simp]: "wf_matrix (mk_matrix R K f)"
  by (simp add: mk_matrix_def wf_matrix_def list_all_iff)

lemma mk_matrix_cong:
  "(\<And>k j. k < R \<Longrightarrow> j < K \<Longrightarrow> f k j = g k j) \<Longrightarrow> mk_matrix R K f = mk_matrix R K g"
  by (simp add: mk_matrix_def)

lemma wf_matrix_mk:
  assumes "wf_matrix M"
  shows "M = mk_matrix (shape0 M) (shape1 M) (\<lambda>k j. entries M ! k ! j)"
proof -
  have "entries M = map (\<lambda>k. map (\<lambda>j. entries M ! k ! j) [0..<n_cols M]) [0..<length (entries M)]"
    using assms
    by (intro nth_equalityI) (auto simp: wf_matrix_def list_all_iff intro!: nth_equalityI)
  then show ?thesis
    by (cases M) (simp add: mk_matrix_def shape0_def shape1_def)
qed

lemma map_matrix_mk [simp]: "map_matrix h (mk_matrix R K f) = mk_matrix R K (\<lambda>k j. h (f k j))"
  by (simp add: map_matrix_def mk_matrix_def)

lemma zip_matrix_mk [simp]:
  "zip_matrix h (mk_matrix R K f) (mk_matrix R K g) = mk_matrix R K (\<lambda>k j. h (f k j) (g k j))"
  by (auto simp: zip_matrix_def mk_matrix_def intro!: nth_equalityI)

lemma rowwise_mk [simp]:
  "length v = R \<Longrightarrow> rowwise h (mk_matrix R K f) v = mk_matrix R K (\<lambda>k j. h (f k j) (v ! k))"
  by (auto simp: rowwise_def mk_matrix_def intro!: nth_equalityI)

lemma add_to_column_mk:
  "length v = R \<Longrightarrow> j < K \<Longrightarrow>
   add_to_column (mk_matrix R K f) j v =
   mk_matrix R K (\<lambda>k j'. if j' = j then f k j + v ! k else f k j')"
  by (auto simp: add_to_column_def mk_matrix_def intro!: nth_equalityI)

section \<open>The naive loss in closed form\<close>

lemma fold_class_step:
  assumes "length xi = R" "c \<le> K"
  shows "fold (class_step sm yi xi) [0..<c] (mk_matrix R K f) =
         mk_matrix R K (\<lambda>k j. if j < c then f k j + (if int j = yi then sm ! j - 1 else sm ! j) * xi ! k
                                 else f k j)"
  using assms(2)
proof (induction c)
  case 0
  show ?case by simp
next
  case (Suc c)
  then have c: "c < K" by simp
  have "fold (class_step sm yi xi) [0..<Suc c] (mk_matrix R K f) =
        class_step sm yi xi c (fold (class_step sm yi xi) [0..<c] (mk_matrix R K f))"
    by simp
  also have "\<dots> = class_step sm yi xi c
      (mk_matrix R K (\<lambda>k j. if j < c then f k j + (if int j = yi then sm ! j - 1 else sm ! j) * xi ! k
                                 else f k j))"
    using Suc by simp
  also have "\<dots> = mk_matrix R K (\<lambda>k j. if j < Suc c then f k j + (if int j = yi then sm ! j - 1 else sm ! j) * xi ! k
                                 else f k j)"
    using c assms(1)
    by (auto simp: class_step_def add_to_column_mk less_Suc_eq intro!: mk_matrix_cong)
  finally show ?case .
qed

lemma sum_list_exp_pos: "s \<noteq> [] \<Longrightarrow> 0 < sum_list (map exp (s :: real list))"
  by (cases s) (auto intro!: add_pos_nonneg sum_list_nonneg)

lemma sum_list_exp_shift:
  "sum_list (map (\<lambda>a. exp (a - m)) (s :: real list)) = sum_list (map exp s) / exp m"
proof -
  have "sum_list (map (\<lambda>a. exp a / exp m) s) = sum_list (map exp s) / exp m"
    by (induction s) (simp_all add: add_divide_distrib)
  then show ?thesis by (simp only: exp_diff)
qed

lemma softmax_shift:
  "exp (a - m) / sum_list (map (\<lambda>a. exp (a - m)) s) = exp a / sum_list (map exp (s :: real list))"
  unfolding sum_list_exp_shift by (simp add: exp_diff)

lemma softmax_of_scores_eq:
  assumes "s \<noteq> []"
  shows "softmax_of_scores s = Inr (map (softmax_prob s) [0..<length s])"
proof -
  obtain m where m: "np_max s = Inr m"
    using assms by (cases s) (auto simp: np_max_def)
  have "map (\<lambda>a. a / np_sum (np_exp (map (\<lambda>s. s - m) s))) (np_exp (map (\<lambda>s. s - m) s)) =
        map (softmax_prob s) [0..<length s]"
    by (auto simp: np_sum_def np_exp_def softmax_prob_def o_def softmax_shift intro!: nth_equalityI)
  then show ?thesis
    by (simp add: softmax_of_scores_def shift_scores_def m)
qed

lemma sum_list_upt_sum: "sum_list (map f [0..<n]) = (\<Sum>i<n. f i)"
  by (simp add: interv_sum_list_conv_sum_set_nat atLeast0LessThan)

lemma valid_inputD:
  assumes "valid_input W X y"
  shows "wf_matrix W" "wf_matrix X" "shape1 X = shape0 W" "length y = shape0 X"
    "\<And>i. i < shape0 X \<Longrightarrow> length (entries X ! i) = shape0 W"
    "\<And>i. i < shape0 X \<Longrightarrow> 0 \<le> y ! i \<and> y ! i < int (shape1 W)"
    "\<And>i. i < shape0 X \<Longrightarrow> nat (y ! i) < shape1 W"
    "\<And>i. i < shape0 X \<Longrightarrow> 0 < shape1 W"
proof -
  show "wf_matrix W" "wf_matrix X" "shape1 X = shape0 W" "length y = shape0 X"
    using assms by (simp_all add: valid_input_def)
  show "length (entries X ! i) = shape0 W" if "i < shape0 X" for i
    using assms that by (auto simp: valid_input_def wf_matrix_def list_all_iff shape0_def shape1_def)
  show *: "0 \<le> y ! i \<and> y ! i < int (shape1 W)" if "i < shape0 X" for i
  proof -
    have "y ! i \<in> set y" using assms that by (simp add: valid_input_def)
    then show ?thesis using assms by (simp add: valid_input_def list_all_iff)
  qed
  show "nat (y ! i) < shape1 W" if "i < shape0 X" for i
    using * [OF that] by linarith
  show "0 < shape1 W" if "i < shape0 X" for i
    using * [OF that] by linarith
qed

lemma np_dot_vec_row:
  assumes "valid_input W X y" "i < shape0 X"
  shows "np_dot_vec (entries X ! i) W = Inr (class_scores W X i)"
  using valid_inputD(5) [OF assms]
  by (simp add: np_dot_vec_def class_scores_def sum_list_upt_sum)

lemma np_index_nat: "0 \<le> c \<Longrightarrow> c < int (length xs) \<Longrightarrow> np_index xs c = Inr (xs ! nat c)"
  by (simp add: np_index_def)

lemma sample_step_eq:
  assumes v: "valid_input W X y" and i: "i < shape0 X"
  shows "sample_step W X y i (l, mk_matrix (shape0 W) (shape1 W) f) =
         Inr (l - ln (softmax_prob (class_scores W X i) (nat (y ! i))),
              mk_matrix (shape0 W) (shape1 W)
                (\<lambda>k j. f k j + (if int j = y ! i then softmax_prob (class_scores W X i) j - 1
                                else softmax_prob (class_scores W X i) j) * entries X ! i ! k))"
proof -
  let ?s = "class_scores W X i"
  let ?sm = "map (softmax_prob ?s) [0..<shape1 W]"
  have len: "length ?s = shape1 W" by (simp add: class_scores_def)
  have ne: "?s \<noteq> []" using valid_inputD(8) [OF v i] len by auto
  have sm: "softmax_of_scores ?s = Inr ?sm"
    using softmax_of_scores_eq [OF ne] len by simp
  have yi: "np_index y (int i) = Inr (y ! i)"
    using valid_inputD(4) [OF v] i by (simp add: np_index_def)
  have p: "np_index ?sm (y ! i) = Inr (softmax_prob ?s (nat (y ! i)))"
    using valid_inputD(6,7) [OF v i] by (simp add: np_index_nat)
  have fold: "fold (class_step ?sm (y ! i) (entries X ! i)) [0..<shape1 W]
                (mk_matrix (shape0 W) (shape1 W) f) =
              mk_matrix (shape0 W) (shape1 W)
                (\<lambda>k j. f k j + (if int j = y ! i then softmax_prob ?s j - 1
                                else softmax_prob ?s j) * entries X ! i ! k)"
    by (subst fold_class_step [OF valid_inputD(5) [OF v i] order_refl])
       (auto intro!: mk_matrix_cong)
  show ?thesis
    by (simp add: sample_step_def scores_step_def np_dot_vec_row [OF v i] sm yi p fold)
qed

lemma loop_samples_eq:
  assumes v: "valid_input W X y"
  shows "\<forall>i\<in>set is. i < shape0 X \<Longrightarrow>
         loop_samples W X y is (l, mk_matrix (shape0 W) (shape1 W) f) =
         Inr (l - (\<Sum>i\<leftarrow>is. ln (softmax_prob (class_scores W X i) (nat (y ! i)))),
              mk_matrix (shape0 W) (shape1 W)
                (\<lambda>k j. f k j + (\<Sum>i\<leftarrow>is. (if int j = y ! i then softmax_prob (class_scores W X i) j - 1
                                else softmax_prob (class_scores W X i) j) * entries X ! i ! k)))"
proof (induction "is" arbitrary: l f)
  case Nil
  show ?case by simp
next
  case (Cons i rest)
  then have i: "i < shape0 X" and rest: "\<forall>i\<in>set rest. i < shape0 X" by simp_all
  show ?case
    by (simp add: sample_step_eq [OF v i] Cons.IH [OF rest] algebra_simps)
qed

lemma np_sum_all_mk: "np_sum_all (mk_matrix R K f) = (\<Sum>k<R. \<Sum>j<K. f k j)"
  by (simp add: np_sum_all_def mk_matrix_def o_def sum_list_upt_sum)

lemma zeros_like_mk: "wf_matrix W \<Longrightarrow> zeros_like W = mk_matrix (shape0 W) (shape1 W) (\<lambda>_ _. 0)"
  by (subst wf_matrix_mk [of W], assumption) (simp add: zeros_like_def)

lemma regularization_eq:
  assumes "wf_matrix W"
  shows "np_sum_all (zip_matrix (*) W W) = (\<Sum>k<shape0 W. \<Sum>j<shape1 W. (entries W ! k ! j)\<^sup>2)"
  by (subst (1 2) wf_matrix_mk [OF assms]) (simp add: np_sum_all_mk power2_eq_square)

lemma finish_gradient:
  assumes "wf_matrix W"
  shows "zip_matrix (+) (map_matrix (\<lambda>a. a / n) (mk_matrix (shape0 W) (shape1 W) g))
           (map_matrix (\<lambda>a. rg * a) W) =
         mk_matrix (shape0 W) (shape1 W) (\<lambda>k j. g k j / n + rg * entries W ! k ! j)"
  by (subst (3) wf_matrix_mk [OF assms]) simp

lemma softmax_loss_naive_eq:
  assumes v: "valid_input W X y" and n: "0 < shape0 X"
  shows "softmax_loss_naive W X y rg =
         Inr (cross_entropy_loss W X y rg,
              mk_matrix (shape0 W) (shape1 W) (loss_gradient W X y rg))"
proof -
  have loop: "loop_samples W X y [0..<shape0 X] (0, zeros_like W) =
        Inr (0 - (\<Sum>i\<leftarrow>[0..<shape0 X]. ln (softmax_prob (class_scores W X i) (nat (y ! i)))),
             mk_matrix (shape0 W) (shape1 W)
               (\<lambda>k j. 0 + (\<Sum>i\<leftarrow>[0..<shape0 X].
                    (if int j = y ! i then softmax_prob (class_scores W X i) j - 1
                     else softmax_prob (class_scores W X i) j) * entries X ! i ! k)))"
    unfolding zeros_like_mk [OF valid_inputD(1) [OF v]]
    by (rule loop_samples_eq [OF v]) simp
  have grad: "zip_matrix (+) (map_matrix (\<lambda>a. a / real (shape0 X))
                  (mk_matrix (shape0 W) (shape1 W)
                     (\<lambda>k j. 0 + (\<Sum>i\<leftarrow>[0..<shape0 X].
                        (if int j = y ! i then softmax_prob (class_scores W X i) j - 1
                         else softmax_prob (class_scores W X i) j) * entries X ! i ! k))))
                (map_matrix (\<lambda>a. rg * a) W) =
              mk_matrix (shape0 W) (shape1 W) (loss_gradient W X y rg)"
    unfolding finish_gradient [OF valid_inputD(1) [OF v]] sum_list_upt_sum loss_gradient_def
    by (intro mk_matrix_cong) (auto intro!: sum.cong)
  have loss: "(0 - (\<Sum>i\<leftarrow>[0..<shape0 X]. ln (softmax_prob (class_scores W X i) (nat (y ! i)))))
                / real (shape0 X)
              + 0.5 * rg * np_sum_all (zip_matrix (*) W W) = cross_entropy_loss W X y rg"
    by (simp add: regularization_eq [OF valid_inputD(1) [OF v]] cross_entropy_loss_def
        sum_list_upt_sum sum_negf)
  show ?thesis
    unfolding softmax_loss_naive_def Let_def loop sum.case prod.case grad loss
    using n by simp
qed

section \<open>The vectorized loss in closed form\<close>

lemma np_dot_mk:
  "np_dot (mk_matrix R K f) (mk_matrix K K' g) =
   Inr (mk_matrix R K' (\<lambda>r j. \<Sum>k<K. f r k * g k j))"
  by (simp add: np_dot_def) (auto simp: mk_matrix_def sum_list_upt_sum intro!: sum.cong)

lemma np_transpose_mk: "np_transpose (mk_matrix R K f) = mk_matrix K R (\<lambda>k i. f i k)"
  by (simp add: np_transpose_def) (simp add: mk_matrix_def)

lemma np_max_axis1_mk:
  "0 < K \<Longrightarrow> \<exists>m. np_max_axis1 (mk_matrix R K f) = Inr m \<and> length m = R"
  by (simp add: np_max_axis1_def)

lemma np_sum_axis1_mk:
  "np_sum_axis1 (mk_matrix R K f) = map (\<lambda>i. sum_list (map (f i) [0..<K])) [0..<R]"
  by (simp add: np_sum_axis1_def mk_matrix_def o_def)

lemma take_entries_mk:
  "\<forall>(i, c) \<in> set ps. i < R \<and> 0 \<le> c \<and> c < int K \<Longrightarrow>
   take_entries (mk_matrix R K f) ps = Inr (map (\<lambda>(i, c). f i (nat c)) ps)"
proof (induction ps)
  case Nil
  show ?case by simp
next
  case (Cons p ps)
  obtain i c where p: "p = (i, c)" by (cases p)
  from Cons.prems p have ic: "i < R" "0 \<le> c" "c < int K" and
    rest: "\<forall>(i, c) \<in> set ps. i < R \<and> 0 \<le> c \<and> c < int K" by auto
  have "nat c < K" using ic by linarith
  then show ?case
    using ic by (simp add: p Cons.IH [OF rest] np_index_nat)
qed

lemma put_entries_append:
  "length ps = length vs \<Longrightarrow>
   put_entries M (ps @ qs) (vs @ ws) = put_entries (put_entries M ps vs) qs ws"
proof (induction ps arbitrary: vs M)
  case Nil
  then show ?case by simp
next
  case (Cons p ps)
  then obtain v vs' where vs: "vs = v # vs'" "length ps = length vs'" by (cases vs) auto
  obtain i c where p: "p = (i, c)" by (cases p)
  show ?case by (simp add: vs p Cons.IH [OF vs(2)])
qed

lemma put_entries_single:
  assumes "i < R" "0 \<le> c" "c < int K"
  shows "put_entries (mk_matrix R K f) [(i, c)] [v] =
         mk_matrix R K (\<lambda>i' j. if i' = i \<and> j = nat c then v else f i' j)"
proof -
  have "nat c < K" using assms by linarith
  then show ?thesis
    using assms
    by (auto simp: mk_matrix_def np_position_def shape1_def nth_list_update intro!: nth_equalityI)
qed

lemma put_entries_prefix:
  assumes "length y = R" "\<forall>c\<in>set y. 0 \<le> c \<and> c < int K" "n \<le> R"
  shows "put_entries (mk_matrix R K f) (zip [0..<n] (take n y)) (map v [0..<n]) =
         mk_matrix R K (\<lambda>i j. if i < n \<and> j = nat (y ! i) then v i else f i j)"
  using assms(3)
proof (induction n)
  case 0
  show ?case by simp
next
  case (Suc n)
  then have n: "n < R" "n \<le> R" by simp_all
  have yn: "0 \<le> y ! n" "y ! n < int K" using assms(1,2) n by auto
  have z: "zip [0..<Suc n] (take (Suc n) y) = zip [0..<n] (take n y) @ [(n, y ! n)]"
    using n assms(1) by (simp add: take_Suc_conv_app_nth)
  have "put_entries (mk_matrix R K f) (zip [0..<Suc n] (take (Suc n) y)) (map v [0..<Suc n]) =
        put_entries (put_entries (mk_matrix R K f) (zip [0..<n] (take n y)) (map v [0..<n]))
          [(n, y ! n)] [v n]"
    unfolding z using n assms(1) by (simp add: put_entries_append del: put_entries.simps)
  also have "\<dots> = mk_matrix R K (\<lambda>i j. if i < Suc n \<and> j = nat (y ! i) then v i else f i j)"
    unfolding Suc.IH [OF n(2)] put_entries_single [OF n(1) yn]
    by (intro mk_matrix_cong) (auto simp: less_Suc_eq)
  finally show ?case .
qed

lemma zip_upt_map: "length y = n \<Longrightarrow> map (\<lambda>(i, c). g i c) (zip [0..<n] y) = map (\<lambda>i. g i (y ! i)) [0..<n]"
  by (auto intro!: nth_equalityI)

lemma softmax_loss_vectorized_eq:
  assumes v: "valid_input W X y" and n: "0 < shape0 X"
  shows "softmax_loss_vectorized W X y rg =
         Inr (cross_entropy_loss W X y rg,
              mk_matrix (shape0 W) (shape1 W) (loss_gradient W X y rg))"
proof -
  let ?N = "shape0 X" and ?D = "shape0 W" and ?C = "shape1 W"
  let ?x = "\<lambda>i k. entries X ! i ! k" and ?w = "\<lambda>k j. entries W ! k ! j"
  let ?s = "\<lambda>i j. \<Sum>k<?D. ?x i k * ?w k j"
  let ?P = "\<lambda>i j. softmax_prob (class_scores W X i) j"
  let ?S = "\<lambda>i j. if i < ?N \<and> j = nat (y ! i) then ?P i (nat (y ! i)) - 1 else ?P i j"
  note wfW = valid_inputD(1) [OF v]
  have Wm: "mk_matrix ?D ?C ?w = W" using wf_matrix_mk [OF wfW] by simp
  have Xm: "mk_matrix ?N ?D ?x = X"
    using wf_matrix_mk [OF valid_inputD(2) [OF v]] valid_inputD(3) [OF v] by simp
  have C: "0 < ?C" using valid_inputD(8) [OF v n] .
  have dot: "np_dot X W = Inr (mk_matrix ?N ?C ?s)"
    using np_dot_mk [of ?N ?D ?x ?C ?w] unfolding Xm Wm .
  obtain m where m: "np_max_axis1 (mk_matrix ?N ?C ?s) = Inr m" and lm: "length m = ?N"
    using np_max_axis1_mk [OF C] by blast
  have sc: "rowwise (-) (mk_matrix ?N ?C ?s) m = mk_matrix ?N ?C (\<lambda>i j. ?s i j - m ! i)"
    using lm by simp
  have ex: "map_matrix exp (mk_matrix ?N ?C (\<lambda>i j. ?s i j - m ! i)) =
            mk_matrix ?N ?C (\<lambda>i j. exp (?s i j - m ! i))"
    by simp
  have sm: "rowwise (/) (mk_matrix ?N ?C (\<lambda>i j. exp (?s i j - m ! i)))
              (np_sum_axis1 (mk_matrix ?N ?C (\<lambda>i j. exp (?s i j - m ! i)))) =
            mk_matrix ?N ?C ?P"
  proof -
    have "exp (?s i j - m ! i) / sum_list (map (\<lambda>j. exp (?s i j - m ! i)) [0..<?C]) = ?P i j"
      if "i < ?N" "j < ?C" for i j
    proof -
      have "map (\<lambda>j. exp (?s i j - m ! i)) [0..<?C] =
            map (\<lambda>a. exp (a - m ! i)) (class_scores W X i)"
        by (simp add: class_scores_def o_def)
      moreover have "?s i j = class_scores W X i ! j"
        using that by (simp add: class_scores_def)
      ultimately show ?thesis
        by (simp add: softmax_shift softmax_prob_def)
    qed
    then show ?thesis
      by (simp add: np_sum_axis1_mk cong: mk_matrix_cong)
  qed
  have idx: "index_pairs ?N y = Inr (zip [0..<?N] y)"
    using valid_inputD(4) [OF v] by (simp add: index_pairs_def)
  have rng: "\<forall>(i, c) \<in> set (zip [0..<?N] y). i < ?N \<and> 0 \<le> c \<and> c < int ?C"
    using valid_inputD(4,6) [OF v] by (auto simp: set_zip)
  have ps: "take_entries (mk_matrix ?N ?C ?P) (zip [0..<?N] y) =
            Inr (map (\<lambda>i. ?P i (nat (y ! i))) [0..<?N])"
    using take_entries_mk [OF rng, of ?P] valid_inputD(4) [OF v]
    by (simp add: zip_upt_map)
  have yset: "\<forall>c\<in>set y. 0 \<le> c \<and> c < int ?C"
    using v by (simp add: valid_input_def list_all_iff)
  have put: "put_entries (mk_matrix ?N ?C ?P) (zip [0..<?N] y)
               (map (\<lambda>p. p - 1) (map (\<lambda>i. ?P i (nat (y ! i))) [0..<?N])) =
             mk_matrix ?N ?C ?S"
    using put_entries_prefix [OF valid_inputD(4) [OF v] yset order_refl,
        of ?P "\<lambda>i. ?P i (nat (y ! i)) - 1"] valid_inputD(4) [OF v]
    by (simp add: o_def)
  have dot2: "np_dot (np_transpose X) (mk_matrix ?N ?C ?S) =
              Inr (mk_matrix ?D ?C (\<lambda>k j. \<Sum>i<?N. ?x i k * ?S i j))"
    using np_dot_mk [of ?D ?N "\<lambda>k i. ?x i k" ?C ?S] np_transpose_mk [of ?N ?D ?x]
    unfolding Xm by simp
  have grad: "zip_matrix (+) (map_matrix (\<lambda>a. a / real ?N)
                 (mk_matrix ?D ?C (\<lambda>k j. \<Sum>i<?N. ?x i k * ?S i j)))
               (map_matrix (\<lambda>a. rg * a) W) =
              mk_matrix ?D ?C (loss_gradient W X y rg)"
  proof -
    have "(\<Sum>i<?N. ?x i k * ?S i j) =
          (\<Sum>i<?N. (?P i j - (if int j = y ! i then 1 else 0)) * ?x i k)" for k j
    proof (rule sum.cong)
      fix i assume "i \<in> {..<?N}"
      then have "0 \<le> y ! i" using valid_inputD(6) [OF v, of i] by simp
      then have "j = nat (y ! i) \<longleftrightarrow> int j = y ! i" by linarith
      with \<open>i \<in> {..<?N}\<close> show "?x i k * ?S i j = (?P i j - (if int j = y ! i then 1 else 0)) * ?x i k"
        by auto
    qed simp
    then show ?thesis
      unfolding finish_gradient [OF wfW] loss_gradient_def by simp
  qed
  have loss: "(0 - np_sum (map ln (map (\<lambda>i. ?P i (nat (y ! i))) [0..<?N]))) / real ?N
              + 0.5 * rg * np_sum_all (zip_matrix (*) W W) = cross_entropy_loss W X y rg"
    by (simp add: regularization_eq [OF wfW] cross_entropy_loss_def np_sum_def o_def
        sum_list_upt_sum sum_negf)
  show ?thesis
    unfolding softmax_loss_vectorized_def vectorized_from_scores_def softmax_rows_def
      shift_rows_def Let_def dot sum.case m sc ex sm idx ps put dot2 grad loss
    using n by simp
qed

section \<open>Sums over the classes\<close>

lemma zero_matrix_mk: "zero_matrix D C = mk_matrix D C (\<lambda>_ _. 0)"
  by (simp add: zero_matrix_def mk_matrix_def map_replicate_const)

lemma softmax_prob_sum_one:
  assumes "s \<noteq> []"
  shows "(\<Sum>j<length s. softmax_prob s j) = 1"
proof -
  have "(\<Sum>j<length s. exp (s ! j)) = sum_list (map exp s)"
    by (simp add: sum_list_sum_nth atLeast0LessThan)
  then have "(\<Sum>j<length s. softmax_prob s j) = sum_list (map exp s) / sum_list (map exp s)"
    by (simp add: softmax_prob_def sum_divide_distrib [symmetric])
  then show ?thesis using sum_list_exp_pos [OF assms] by simp
qed

lemma indicator_sum_one:
  assumes "0 \<le> c" "c < int K"
  shows "(\<Sum>j<K. if int j = c then 1 else 0 :: real) = 1"
proof -
  have "(\<Sum>j<K. if int j = c then 1 else 0 :: real) = (\<Sum>j<K. if j = nat c then 1 else 0)"
    using assms by (intro sum.cong) auto
  also have "\<dots> = 1" using assms by simp
  finally show ?thesis .
qed

lemma coefficient_sum_zero:
  assumes v: "valid_input W X y" and i: "i < shape0 X"
  shows "(\<Sum>j<shape1 W. softmax_prob (class_scores W X i) j - (if int j = y ! i then 1 else 0)) = 0"
proof -
  have len: "length (class_scores W X i) = shape1 W" by (simp add: class_scores_def)
  then have ne: "class_scores W X i \<noteq> []" using valid_inputD(8) [OF v i] by auto
  show ?thesis
    using softmax_prob_sum_one [OF ne] indicator_sum_one [of "y ! i" "shape1 W"]
      valid_inputD(6) [OF v i]
    by (simp add: sum_subtractf len)
qed

lemma gradient_row_sum_zero:
  assumes v: "valid_input W X y"
  shows "(\<Sum>j<shape1 W. loss_gradient W X y 0 k j) = 0"
proof -
  let ?c = "\<lambda>i j. softmax_prob (class_scores W X i) j - (if int j = y ! i then 1 else 0)"
  have "(\<Sum>j<shape1 W. loss_gradient W X y 0 k j) =
        (\<Sum>j<shape1 W. \<Sum>i<shape0 X. ?c i j * entries X ! i ! k) / real (shape0 X)"
    by (simp add: loss_gradient_def sum_divide_distrib)
  also have "(\<Sum>j<shape1 W. \<Sum>i<shape0 X. ?c i j * entries X ! i ! k) =
             (\<Sum>i<shape0 X. (\<Sum>j<shape1 W. ?c i j) * entries X ! i ! k)"
    by (subst sum.swap) (simp add: sum_distrib_right)
  also have "\<dots> = 0"
    using coefficient_sum_zero [OF v] by simp
  finally show ?thesis by simp
qed

section \<open>The naive and the vectorized loss agree\<close>

text \<open>
  Claim C1, on batches with at least one sample: for \<open>W\<close> of shape \<open>(D, C)\<close>, \<open>X\<close> of
  shape \<open>(N, D)\<close> with \<open>N \<ge> 1\<close> and \<open>N\<close> labels in \<open>[0, C)\<close>, and any regularization
  strength, \<open>softmax_loss_naive\<close> and \<open>softmax_loss_vectorized\<close> both return, and they
  return the same loss and the same gradient.
\<close>

theorem naive_vectorized_agree:
  assumes "valid_input W X y" and "0 < shape0 X"
  shows "\<exists>l dW. softmax_loss_naive W X y rg = Inr (l, dW) \<and>
                softmax_loss_vectorized W X y rg = Inr (l, dW)"
  using softmax_loss_naive_eq [OF assms] softmax_loss_vectorized_eq [OF assms] by simp

theorem naive_vectorized_agree_witness:
  "valid_input \<lparr>n_cols = 2, entries = [[0, 0]]\<rparr> \<lparr>n_cols = 1, entries = [[1]]\<rparr> [0] \<and>
   0 < shape0 \<lparr>n_cols = 1, entries = [[1]]\<rparr> \<and>
   (\<exists>l dW. softmax_loss_naive \<lparr>n_cols = 2, entries = [[0, 0]]\<rparr>
               \<lparr>n_cols = 1, entries = [[1]]\<rparr> [0] 1 = Inr (l, dW) \<and>
            softmax_loss_vectorized \<lparr>n_cols = 2, entries = [[0, 0]]\<rparr>
               \<lparr>n_cols = 1, entries = [[1]]\<rparr> [0] 1 = Inr (l, dW))"
proof -
  have v: "valid_input \<lparr>n_cols = 2, entries = [[0, 0]]\<rparr> \<lparr>n_cols = 1, entries = [[1]]\<rparr> [0]"
    by (simp add: valid_input_def wf_matrix_def shape0_def shape1_def)
  have n: "0 < shape0 \<lparr>n_cols = 1, entries = [[1]]\<rparr>"
    by (simp add: shape0_def)
  show ?thesis
    using v n naive_vectorized_agree [OF v n, of 1] by simp
qed

text \<open>
  On an empty batch the two functions part: the naive one divides a Python float by
  the integer \<open>0\<close> and raises, the vectorized one divides a numpy scalar and returns
  \<open>nan\<close>.
\<close>

theorem empty_batch_disagree:
  "valid_input \<lparr>n_cols = 2, entries = [[0, 0]]\<rparr> \<lparr>n_cols = 1, entries = []\<rparr> [] \<and>
   softmax_loss_naive \<lparr>n_cols = 2, entries = [[0, 0]]\<rparr> \<lparr>n_cols = 1, entries = []\<rparr> [] 0
     = Inl ZeroDivisionError \<and>
   softmax_loss_vectorized \<lparr>n_cols = 2, entries = [[0, 0]]\<rparr> \<lparr>n_cols = 1, entries = []\<rparr> [] 0
     = Inl NotANumber"
  by (simp add: valid_input_def wf_matrix_def shape0_def shape1_def softmax_loss_naive_def
      softmax_loss_vectorized_def vectorized_from_scores_def softmax_rows_def shift_rows_def
      np_max_axis1_def np_dot_def index_pairs_def rowwise_def map_matrix_def np_sum_axis1_def)

section \<open>Zero weights\<close>

lemma zero_matrix_shape [simp]:
  "shape0 (zero_matrix D C) = D" "shape1 (zero_matrix D C) = C"
  by (simp_all add: zero_matrix_mk)

lemma class_scores_zero:
  "class_scores (zero_matrix D C) X i = replicate C 0"
  by (auto simp: class_scores_def zero_matrix_mk intro!: nth_equalityI sum.neutral)

lemma softmax_prob_uniform: "j < C \<Longrightarrow> softmax_prob (replicate C 0) j = 1 / real C"
  by (simp add: softmax_prob_def sum_list_replicate)

lemma loss_at_zero_weights:
  assumes v: "valid_input (zero_matrix D C) X y" and n: "0 < shape0 X"
  shows "cross_entropy_loss (zero_matrix D C) X y 0 = ln (real C)"
proof -
  have C: "0 < C" using valid_inputD(8) [OF v n] by simp
  have "- ln (softmax_prob (class_scores (zero_matrix D C) X i) (nat (y ! i))) = ln (real C)"
    if "i < shape0 X" for i
    using valid_inputD(7) [OF v that] C
    by (simp add: class_scores_zero softmax_prob_uniform ln_div)
  then show ?thesis
    using n by (simp add: cross_entropy_loss_def)
qed

lemma gradient_at_zero_weights:
  assumes "j < C"
  shows "loss_gradient (zero_matrix D C) X y 0 k j =
         (\<Sum>i<shape0 X. (1 / real C - (if int j = y ! i then 1 else 0)) * entries X ! i ! k)
           / real (shape0 X)"
  using assms by (simp add: loss_gradient_def class_scores_zero softmax_prob_uniform)

lemma result_at_zero_weights:
  assumes "valid_input (zero_matrix D C) X y" and "0 < shape0 X"
  shows "softmax_loss_naive (zero_matrix D C) X y 0 =
           Inr (ln (real C),
                mk_matrix D C (\<lambda>k j.
                  (\<Sum>i<shape0 X. (1 / real C - (if int j = y ! i then 1 else 0)) * entries X ! i ! k)
                    / real (shape0 X)))
         \<and> softmax_loss_vectorized (zero_matrix D C) X y 0 =
           Inr (ln (real C),
                mk_matrix D C (\<lambda>k j.
                  (\<Sum>i<shape0 X. (1 / real C - (if int j = y ! i then 1 else 0)) * entries X ! i ! k)
                    / real (shape0 X)))"
proof -
  have g: "mk_matrix D C (loss_gradient (zero_matrix D C) X y 0) =
           mk_matrix D C (\<lambda>k j.
                  (\<Sum>i<shape0 X. (1 / real C - (if int j = y ! i then 1 else 0)) * entries X ! i ! k)
                    / real (shape0 X))"
    by (intro mk_matrix_cong) (rule gradient_at_zero_weights)
  show ?thesis
    using softmax_loss_naive_eq [OF assms, of 0] softmax_loss_vectorized_eq [OF assms, of 0]
    by (simp add: loss_at_zero_weights [OF assms] g)
qed

lemma valid_example:
  "valid_input \<lparr>n_cols = 2, entries = [[0, 0]]\<rparr> \<lparr>n_cols = 1, entries = [[1]]\<rparr> [0]"
  "0 < shape0 \<lparr>n_cols = 1, entries = [[1]]\<rparr>"
  by (simp_all add: valid_input_def wf_matrix_def shape0_def shape1_def)

lemma zero_example: "zero_matrix 1 2 = \<lparr>n_cols = 2, entries = [[0, 0]]\<rparr>"
  by (simp add: zero_matrix_def numeral_2_eq_2)

lemma mk_matrix_1_2: "mk_matrix 1 2 f = \<lparr>n_cols = 2, entries = [[f 0 0, f 0 1]]\<rparr>"
proof -
  have "[0..<2] = [0, Suc 0]" by (simp add: numeral_2_eq_2)
  then show ?thesis by (simp add: mk_matrix_def)
qed

lemma result_of_zero_example:
  "softmax_loss_naive (zero_matrix 1 2) \<lparr>n_cols = 1, entries = [[1]]\<rparr> [0] 0 =
     Inr (ln 2, \<lparr>n_cols = 2, entries = [[- 1 / 2, 1 / 2]]\<rparr>)"
  "softmax_loss_vectorized (zero_matrix 1 2) \<lparr>n_cols = 1, entries = [[1]]\<rparr> [0] 0 =
     Inr (ln 2, \<lparr>n_cols = 2, entries = [[- 1 / 2, 1 / 2]]\<rparr>)"
proof -
  have v: "valid_input (zero_matrix 1 2) \<lparr>n_cols = 1, entries = [[1]]\<rparr> [0]"
    using valid_example(1) by (simp only: zero_example)
  have g: "mk_matrix 1 2 (\<lambda>k j.
             (\<Sum>i<shape0 \<lparr>n_cols = 1, entries = [[1]]\<rparr>.
                 (1 / real 2 - (if int j = [0] ! i then 1 else 0)) *
                 entries \<lparr>n_cols = 1, entries = [[1]]\<rparr> ! i ! k)
               / real (shape0 \<lparr>n_cols = 1, entries = [[1]]\<rparr>)) =
           \<lparr>n_cols = 2, entries = [[- 1 / 2, 1 / 2]]\<rparr>"
    unfolding mk_matrix_1_2 by (simp add: shape0_def)
  show "softmax_loss_naive (zero_matrix 1 2) \<lparr>n_cols = 1, entries = [[1]]\<rparr> [0] 0 =
     Inr (ln 2, \<lparr>n_cols = 2, entries = [[- 1 / 2, 1 / 2]]\<rparr>)"
    and "softmax_loss_vectorized (zero_matrix 1 2) \<lparr>n_cols = 1, entries = [[1]]\<rparr> [0] 0 =
     Inr (ln 2, \<lparr>n_cols = 2, entries = [[- 1 / 2, 1 / 2]]\<rparr>)"
    using result_at_zero_weights [OF v valid_example(2)] unfolding g by simp_all
qed

text \<open>
  Claim C8, as the code has it: with \<open>W\<close> the zero matrix of shape \<open>(D, C)\<close>, no
  regularization and a batch of at least one sample, both functions return the loss
  \<open>ln C\<close>. The gradient they return is not the zero matrix: its entry \<open>(k, j)\<close> is the
  mean over the samples of \<open>(1 / C - [j = y[i]]) * X[i][k]\<close>.
\<close>

theorem zero_weights:
  assumes "valid_input (zero_matrix D C) X y" and "0 < shape0 X"
  shows "softmax_loss_naive (zero_matrix D C) X y 0 =
           Inr (ln (real C),
                mk_matrix D C (\<lambda>k j.
                  (\<Sum>i<shape0 X. (1 / real C - (if int j = y ! i then 1 else 0)) * entries X ! i ! k)
                    / real (shape0 X)))
         \<and> softmax_loss_vectorized (zero_matrix D C) X y 0 =
           Inr (ln (real C),
                mk_matrix D C (\<lambda>k j.
                  (\<Sum>i<shape0 X. (1 / real C - (if int j = y ! i then 1 else 0)) * entries X ! i ! k)
                    / real (shape0 X)))"
  using assms by (rule result_at_zero_weights)

theorem zero_weights_witness:
  "valid_input (zero_matrix 1 2) \<lparr>n_cols = 1, entries = [[1]]\<rparr> [0] \<and>
   0 < shape0 \<lparr>n_cols = 1, entries = [[1]]\<rparr> \<and>
   (\<exists>g. softmax_loss_naive (zero_matrix 1 2) \<lparr>n_cols = 1, entries = [[1]]\<rparr> [0] 0 =
     Inr (ln (real 2), g) \<and>
   softmax_loss_vectorized (zero_matrix 1 2) \<lparr>n_cols = 1, entries = [[1]]\<rparr> [0] 0 =
     Inr (ln (real 2), g))"
proof -
  have v: "valid_input (zero_matrix 1 2) \<lparr>n_cols = 1, entries = [[1]]\<rparr> [0]"
    using valid_example(1) by (simp only: zero_example)
  show ?thesis
    using v valid_example(2) zero_weights [OF v valid_example(2)] by blast
qed

text \<open>
  One sample \<open>[1]\<close> with label 0 and two classes: the loss is \<open>ln 2\<close> and the gradient
  is \<open>[[-1/2, 1/2]]\<close>, not zero.
\<close>

theorem zero_weights_gradient_not_zero:
  "valid_input (zero_matrix 1 2) \<lparr>n_cols = 1, entries = [[1]]\<rparr> [0] \<and>
   softmax_loss_naive (zero_matrix 1 2) \<lparr>n_cols = 1, entries = [[1]]\<rparr> [0] 0 =
     Inr (ln 2, \<lparr>n_cols = 2, entries = [[- 1 / 2, 1 / 2]]\<rparr>) \<and>
   softmax_loss_vectorized (zero_matrix 1 2) \<lparr>n_cols = 1, entries = [[1]]\<rparr> [0] 0 =
     Inr (ln 2, \<lparr>n_cols = 2, entries = [[- 1 / 2, 1 / 2]]\<rparr>) \<and>
   \<lparr>n_cols = 2, entries = [[- 1 / 2, 1 / 2]]\<rparr> \<noteq> zero_matrix 1 2"
proof -
  have v: "valid_input (zero_matrix 1 2) \<lparr>n_cols = 1, entries = [[1]]\<rparr> [0]"
    using valid_example(1) by (simp only: zero_example)
  moreover have "\<lparr>n_cols = 2, entries = [[- 1 / 2, 1 / 2]]\<rparr> \<noteq> zero_matrix 1 2"
    unfolding zero_example by simp
  ultimately show ?thesis using result_of_zero_example by blast
qed

section \<open>The rows of the gradient sum to zero\<close>

text \<open>
  Claim C9, on batches with at least one sample: without regularization the gradient
  that \<open>softmax_loss_naive\<close> and \<open>softmax_loss_vectorized\<close> return has every row (one
  per feature) summing to zero over the class columns, because the coefficients of
  each sample, the probabilities less the indicator of the true class, sum to zero.
\<close>

theorem gradient_rows_sum_to_zero:
  assumes "valid_input W X y" and "0 < shape0 X"
  shows "\<exists>l dW. softmax_loss_naive W X y 0 = Inr (l, dW) \<and>
                softmax_loss_vectorized W X y 0 = Inr (l, dW) \<and>
                shape0 dW = shape0 W \<and>
                (\<forall>k<shape0 W. sum_list (entries dW ! k) = 0) \<and>
                (\<forall>i<shape0 X. (\<Sum>j<shape1 W. softmax_prob (class_scores W X i) j
                                   - (if int j = y ! i then 1 else 0)) = 0)"
proof -
  have "sum_list (entries (mk_matrix (shape0 W) (shape1 W) (loss_gradient W X y 0)) ! k) = 0"
    if "k < shape0 W" for k
    using that gradient_row_sum_zero [OF assms(1), of k] by (simp add: sum_list_upt_sum)
  then show ?thesis
    using softmax_loss_naive_eq [OF assms, of 0] softmax_loss_vectorized_eq [OF assms, of 0]
      coefficient_sum_zero [OF assms(1)]
    by simp
qed

theorem gradient_rows_sum_to_zero_witness:
  "valid_input \<lparr>n_cols = 2, entries = [[0, 0]]\<rparr> \<lparr>n_cols = 1, entries = [[1]]\<rparr> [0] \<and>
   0 < shape0 \<lparr>n_cols = 1, entries = [[1]]\<rparr> \<and>
   (\<exists>l dW. softmax_loss_naive \<lparr>n_cols = 2, entries = [[0, 0]]\<rparr>
              \<lparr>n_cols = 1, entries = [[1]]\<rparr> [0] 0 = Inr (l, dW) \<and>
            sum_list (entries dW ! 0) = 0)"
  using valid_example gradient_rows_sum_to_zero [OF valid_example]
  by (auto simp: shape0_def)

text \<open>
  On an empty batch no such gradient comes back: the vectorized function returns
  \<open>nan\<close>, the naive one raises.
\<close>

theorem empty_batch_no_gradient:
  "valid_input \<lparr>n_cols = 2, entries = [[1, 2]]\<rparr> \<lparr>n_cols = 1, entries = []\<rparr> [] \<and>
   softmax_loss_vectorized \<lparr>n_cols = 2, entries = [[1, 2]]\<rparr> \<lparr>n_cols = 1, entries = []\<rparr> [] 0
     = Inl NotANumber \<and>
   softmax_loss_naive \<lparr>n_cols = 2, entries = [[1, 2]]\<rparr> \<lparr>n_cols = 1, entries = []\<rparr> [] 0
     = Inl ZeroDivisionError"
  by (simp add: valid_input_def wf_matrix_def shape0_def shape1_def softmax_loss_naive_def
      softmax_loss_vectorized_def vectorized_from_scores_def softmax_rows_def shift_rows_def
      np_max_axis1_def np_dot_def index_pairs_def rowwise_def map_matrix_def np_sum_axis1_def)

section \<open>Shift invariance and the subtraction of the maximum\<close>

lemma fold_max_upper: "a \<in> set (x # rest) \<Longrightarrow> a \<le> fold max rest (x :: real)"
proof -
  assume "a \<in> set (x # rest)"
  then have "a \<le> Max (set (x # rest))" by (intro Max_ge) simp_all
  then show ?thesis by (simp only: Max.set_eq_fold)
qed

lemma shift_scores_nonpos:
  assumes "shift_scores s = Inr t"
  shows "\<forall>a\<in>set t. a \<le> 0"
proof (cases s)
  case Nil
  with assms show ?thesis by (simp add: shift_scores_def np_max_def)
next
  case (Cons x rest)
  then have t: "t = map (\<lambda>a. a - fold max rest x) s"
    using assms by (auto simp: shift_scores_def np_max_def)
  show ?thesis
    unfolding t using fold_max_upper [of _ x rest] Cons by auto
qed

lemma shift_rows_nonpos:
  assumes wf: "wf_matrix S" and T: "shift_rows S = Inr T"
  shows "\<forall>r\<in>set (entries T). \<forall>a\<in>set r. a \<le> 0"
proof -
  have K: "shape1 S \<noteq> 0" and
    eT: "entries T = map2 (\<lambda>r c. map (\<lambda>a. a - c) r) (entries S)
                        (map (\<lambda>r. fold max (tl r) (hd r)) (entries S))"
    using T by (auto simp: shift_rows_def np_max_axis1_def rowwise_def split: if_splits)
  have eT': "entries T = map (\<lambda>r. map (\<lambda>a. a - fold max (tl r) (hd r)) r) (entries S)"
    unfolding eT by (auto intro!: nth_equalityI)
  show ?thesis
  proof (intro ballI)
    fix r a assume "r \<in> set (entries T)" "a \<in> set r"
    then obtain r0 where r0: "r0 \<in> set (entries S)"
      and r: "r = map (\<lambda>a. a - fold max (tl r0) (hd r0)) r0"
      unfolding eT' by auto
    have "length r0 = shape1 S" using wf r0 by (simp add: wf_matrix_def list_all_iff shape1_def)
    with K have "r0 = hd r0 # tl r0" by (cases r0) auto
    then have "\<forall>b\<in>set r0. b \<le> fold max (tl r0) (hd r0)"
      using fold_max_upper [of _ "hd r0" "tl r0"] by auto
    with \<open>a \<in> set r\<close> show "a \<le> 0" unfolding r by auto
  qed
qed

lemma softmax_of_scores_closed:
  assumes "s \<noteq> []"
  shows "softmax_of_scores s = Inr (map (\<lambda>a. exp a / sum_list (map exp s)) s)"
  unfolding softmax_of_scores_eq [OF assms]
  by (auto simp: softmax_prob_def intro!: nth_equalityI)

lemma softmax_of_scores_shift:
  "softmax_of_scores (map (\<lambda>a. a + c) s) = softmax_of_scores s"
proof (cases "s = []")
  case True
  then show ?thesis by simp
next
  case False
  have "exp (a + c) / sum_list (map (\<lambda>a. exp (a + c)) s) = exp a / sum_list (map exp s)" for a
    using softmax_shift [of a "- c" s] by simp
  then show ?thesis
    using False by (simp add: softmax_of_scores_closed o_def)
qed

lemma scores_step_shift:
  "scores_step (map (\<lambda>a. a + c) s) y xi i n st = scores_step s y xi i n st"
  by (simp add: scores_step_def softmax_of_scores_shift)

lemma softmax_rows_mk:
  assumes "0 < K"
  shows "softmax_rows (mk_matrix R K f) =
         Inr (mk_matrix R K (\<lambda>i j. exp (f i j) / sum_list (map (\<lambda>j. exp (f i j)) [0..<K])))"
proof -
  obtain m where m: "np_max_axis1 (mk_matrix R K f) = Inr m" and lm: "length m = R"
    using np_max_axis1_mk [OF assms] by blast
  have "exp (f i j - m ! i) / sum_list (map (\<lambda>j. exp (f i j - m ! i)) [0..<K]) =
        exp (f i j) / sum_list (map (\<lambda>j. exp (f i j)) [0..<K])" for i j
    using softmax_shift [of "f i j" "m ! i" "map (f i) [0..<K]"] by (simp add: o_def)
  then have "mk_matrix R K (\<lambda>k j. exp (f k j - m ! k) /
                map (\<lambda>i. sum_list (map (\<lambda>j. exp (f i j - m ! i)) [0..<K])) [0..<R] ! k) =
             mk_matrix R K (\<lambda>i j. exp (f i j) / sum_list (map (\<lambda>j. exp (f i j)) [0..<K]))"
    by (intro mk_matrix_cong) simp
  then show ?thesis
    using lm by (simp add: softmax_rows_def shift_rows_def m np_sum_axis1_mk)
qed

lemma map_nth_upt: "length xs = n \<Longrightarrow> map (\<lambda>j. g (xs ! j)) [0..<n] = map g xs"
  by (auto intro!: nth_equalityI)

lemma softmax_rows_closed:
  assumes wf: "wf_matrix S" and K: "0 < shape1 S"
  shows "softmax_rows S =
         Inr (S\<lparr>entries := map (\<lambda>r. map (\<lambda>a. exp a / sum_list (map exp r)) r) (entries S)\<rparr>)"
proof -
  let ?f = "\<lambda>i j. entries S ! i ! j"
  have S: "mk_matrix (shape0 S) (shape1 S) ?f = S" using wf_matrix_mk [OF wf] by simp
  have row: "length (entries S ! i) = shape1 S" if "i < shape0 S" for i
    using wf that by (auto simp: wf_matrix_def list_all_iff shape0_def shape1_def)
  have "mk_matrix (shape0 S) (shape1 S)
          (\<lambda>i j. exp (?f i j) / sum_list (map (\<lambda>j. exp (?f i j)) [0..<shape1 S])) =
        S\<lparr>entries := map (\<lambda>r. map (\<lambda>a. exp a / sum_list (map exp r)) r) (entries S)\<rparr>"
  proof -
    have "map (\<lambda>k. map (\<lambda>j. exp (?f k j) / sum_list (map (\<lambda>j. exp (?f k j)) [0..<shape1 S]))
                   [0..<shape1 S]) [0..<shape0 S] =
          map (\<lambda>r. map (\<lambda>a. exp a / sum_list (map exp r)) r) (entries S)"
    proof (rule nth_equalityI)
      show "length (map (\<lambda>k. map (\<lambda>j. exp (?f k j) / sum_list (map (\<lambda>j. exp (?f k j)) [0..<shape1 S]))
                   [0..<shape1 S]) [0..<shape0 S]) =
            length (map (\<lambda>r. map (\<lambda>a. exp a / sum_list (map exp r)) r) (entries S))"
        by (simp add: shape0_def)
    next
      fix i assume "i < length (map (\<lambda>k. map (\<lambda>j. exp (?f k j) / sum_list (map (\<lambda>j. exp (?f k j)) [0..<shape1 S]))
                   [0..<shape1 S]) [0..<shape0 S])"
      then have i: "i < shape0 S" by simp
      have "map (\<lambda>j. exp (?f i j)) [0..<shape1 S] = map exp (entries S ! i)"
        using row [OF i] by (rule map_nth_upt)
      moreover have "map (\<lambda>j. exp (?f i j) / d) [0..<shape1 S] = map (\<lambda>a. exp a / d) (entries S ! i)" for d
        using row [OF i] by (rule map_nth_upt)
      ultimately show "map (\<lambda>k. map (\<lambda>j. exp (?f k j) / sum_list (map (\<lambda>j. exp (?f k j)) [0..<shape1 S]))
                   [0..<shape1 S]) [0..<shape0 S] ! i =
            map (\<lambda>r. map (\<lambda>a. exp a / sum_list (map exp r)) r) (entries S) ! i"
        using i by (simp add: shape0_def)
    qed
    then show ?thesis
      by (cases S) (simp add: mk_matrix_def shape0_def shape1_def)
  qed
  then show ?thesis
    using softmax_rows_mk [OF K, of "shape0 S" ?f] unfolding S by simp
qed

lemma softmax_rows_shift:
  assumes wf: "wf_matrix S" and len: "length cs = shape0 S"
  shows "softmax_rows (rowwise (+) S cs) = softmax_rows S"
proof -
  let ?f = "\<lambda>i j. entries S ! i ! j"
  have S: "mk_matrix (shape0 S) (shape1 S) ?f = S" using wf_matrix_mk [OF wf] by simp
  have rw: "rowwise (+) S cs = mk_matrix (shape0 S) (shape1 S) (\<lambda>i j. ?f i j + cs ! i)"
    using rowwise_mk [OF len, of "(+)" "shape1 S" ?f] unfolding S .
  show ?thesis
  proof (cases "shape1 S = 0")
    case True
    have "shape1 (rowwise (+) S cs) = 0" using True by (simp add: rw)
    then show ?thesis
      using True by (simp add: softmax_rows_def shift_rows_def np_max_axis1_def)
  next
    case False
    then have K: "0 < shape1 S" by simp
    have "exp (?f i j + cs ! i) / sum_list (map (\<lambda>j. exp (?f i j + cs ! i)) [0..<shape1 S]) =
          exp (?f i j) / sum_list (map (\<lambda>j. exp (?f i j)) [0..<shape1 S])" for i j
      using softmax_shift [of "?f i j" "- (cs ! i)" "map (?f i) [0..<shape1 S]"] by (simp add: o_def)
    then have "softmax_rows (rowwise (+) S cs) = softmax_rows (mk_matrix (shape0 S) (shape1 S) ?f)"
      unfolding rw softmax_rows_mk [OF K] by simp
    then show ?thesis unfolding S .
  qed
qed

lemma vectorized_from_scores_shift:
  assumes "wf_matrix S" and "length cs = shape0 S"
  shows "vectorized_from_scores W X y rg (rowwise (+) S cs) = vectorized_from_scores W X y rg S"
  by (simp add: vectorized_from_scores_def softmax_rows_shift [OF assms])

lemma softmax_loss_naive_returns:
  assumes v: "valid_input W X y" and r: "softmax_loss_naive W X y rg = Inr r"
  shows "r = (cross_entropy_loss W X y rg,
              mk_matrix (shape0 W) (shape1 W) (loss_gradient W X y rg))"
proof (cases "shape0 X = 0")
  case True
  then have "softmax_loss_naive W X y rg = Inl ZeroDivisionError"
    by (simp add: softmax_loss_naive_def split: prod.splits)
  with r show ?thesis by simp
next
  case False
  then show ?thesis using softmax_loss_naive_eq [OF v, of rg] r by simp
qed

lemma softmax_loss_vectorized_returns:
  assumes v: "valid_input W X y" and r: "softmax_loss_vectorized W X y rg = Inr r"
  shows "r = (cross_entropy_loss W X y rg,
              mk_matrix (shape0 W) (shape1 W) (loss_gradient W X y rg))"
proof (cases "shape0 X = 0")
  case True
  then have "\<exists>e. softmax_loss_vectorized W X y rg = Inl e"
    by (simp add: softmax_loss_vectorized_def vectorized_from_scores_def split: sum.splits)
  with r show ?thesis by auto
next
  case False
  then show ?thesis using softmax_loss_vectorized_eq [OF v, of rg] r by simp
qed

text \<open>
  Claim C7. Adding one constant to every entry of a score row changes neither the
  probabilities nor what the sample adds to the loss and to the gradient, in
  \<open>softmax_loss_naive\<close> (lines 41 to 48) and, with one constant per row, in
  \<open>softmax_loss_vectorized\<close> (lines 86 to 96). The subtraction of the maximum is such
  a shift: the probabilities are \<open>exp a / sum exp\<close> of the scores as they were, the loss
  and the gradient returned on a valid input are those of the softmax without the
  shift, and after the shift every argument of the exponential is at most 0.
\<close>

theorem max_subtraction_shift_invariance:
  "softmax_of_scores (map (\<lambda>a. a + c) s) = softmax_of_scores s \<and>
   scores_step (map (\<lambda>a. a + c) s) y xi i n st = scores_step s y xi i n st \<and>
   (wf_matrix S \<and> length cs = shape0 S \<longrightarrow>
      softmax_rows (rowwise (+) S cs) = softmax_rows S \<and>
      vectorized_from_scores W X y rg (rowwise (+) S cs) = vectorized_from_scores W X y rg S) \<and>
   (s \<noteq> [] \<longrightarrow> softmax_of_scores s = Inr (map (\<lambda>a. exp a / sum_list (map exp s)) s)) \<and>
   (wf_matrix S \<and> 0 < shape1 S \<longrightarrow>
      softmax_rows S =
      Inr (S\<lparr>entries := map (\<lambda>r. map (\<lambda>a. exp a / sum_list (map exp r)) r) (entries S)\<rparr>)) \<and>
   (valid_input W X y \<longrightarrow>
      (\<forall>r. softmax_loss_naive W X y rg = Inr r \<longrightarrow>
           r = (cross_entropy_loss W X y rg,
                mk_matrix (shape0 W) (shape1 W) (loss_gradient W X y rg))) \<and>
      (\<forall>r. softmax_loss_vectorized W X y rg = Inr r \<longrightarrow>
           r = (cross_entropy_loss W X y rg,
                mk_matrix (shape0 W) (shape1 W) (loss_gradient W X y rg)))) \<and>
   (\<forall>t. shift_scores s = Inr t \<longrightarrow> (\<forall>a\<in>set t. a \<le> 0)) \<and>
   (\<forall>T. wf_matrix S \<and> shift_rows S = Inr T \<longrightarrow> (\<forall>r\<in>set (entries T). \<forall>a\<in>set r. a \<le> 0))"
proof (intro conjI impI allI)
  show "softmax_of_scores (map (\<lambda>a. a + c) s) = softmax_of_scores s"
    by (rule softmax_of_scores_shift)
  show "scores_step (map (\<lambda>a. a + c) s) y xi i n st = scores_step s y xi i n st"
    by (rule scores_step_shift)
  show "softmax_rows (rowwise (+) S cs) = softmax_rows S"
    if "wf_matrix S \<and> length cs = shape0 S"
    using that by (simp add: softmax_rows_shift)
  show "vectorized_from_scores W X y rg (rowwise (+) S cs) = vectorized_from_scores W X y rg S"
    if "wf_matrix S \<and> length cs = shape0 S"
    using that by (simp add: vectorized_from_scores_shift)
  show "softmax_of_scores s = Inr (map (\<lambda>a. exp a / sum_list (map exp s)) s)" if "s \<noteq> []"
    using that by (rule softmax_of_scores_closed)
  show "softmax_rows S =
      Inr (S\<lparr>entries := map (\<lambda>r. map (\<lambda>a. exp a / sum_list (map exp r)) r) (entries S)\<rparr>)"
    if "wf_matrix S \<and> 0 < shape1 S"
    using that by (simp add: softmax_rows_closed)
  show "r = (cross_entropy_loss W X y rg,
                mk_matrix (shape0 W) (shape1 W) (loss_gradient W X y rg))"
    if "valid_input W X y" "softmax_loss_naive W X y rg = Inr r" for r
    using that by (rule softmax_loss_naive_returns)
  show "r = (cross_entropy_loss W X y rg,
                mk_matrix (shape0 W) (shape1 W) (loss_gradient W X y rg))"
    if "valid_input W X y" "softmax_loss_vectorized W X y rg = Inr r" for r
    using that by (rule softmax_loss_vectorized_returns)
  show "\<forall>a\<in>set t. a \<le> 0" if "shift_scores s = Inr t" for t
    using that by (rule shift_scores_nonpos)
  show "\<forall>r\<in>set (entries T). \<forall>a\<in>set r. a \<le> 0" if "wf_matrix S \<and> shift_rows S = Inr T" for T
    using that shift_rows_nonpos by blast
qed

theorem max_subtraction_shift_invariance_witness:
  "wf_matrix \<lparr>n_cols = 2, entries = [[1, 2]]\<rparr> \<and>
   length [3 :: real] = shape0 \<lparr>n_cols = 2, entries = [[1, 2]]\<rparr> \<and>
   0 < shape1 \<lparr>n_cols = 2, entries = [[1, 2]]\<rparr> \<and>
   [1, 2 :: real] \<noteq> [] \<and>
   valid_input \<lparr>n_cols = 2, entries = [[0, 0]]\<rparr> \<lparr>n_cols = 1, entries = [[1]]\<rparr> [0] \<and>
   shift_scores [1, 2] = Inr [- 1, 0] \<and>
   shift_rows \<lparr>n_cols = 2, entries = [[1, 2]]\<rparr> = Inr \<lparr>n_cols = 2, entries = [[- 1, 0]]\<rparr> \<and>
   list_all (\<lambda>a. a \<le> 0) [- 1, 0 :: real] \<and>
   list_all (list_all (\<lambda>a. a \<le> 0)) (entries \<lparr>n_cols = 2, entries = [[- 1, 0 :: real]]\<rparr>) \<and>
   softmax_of_scores (map (\<lambda>a. a + 3) [1, 2]) = softmax_of_scores [1, 2] \<and>
   softmax_of_scores [1, 2] = Inr (map (\<lambda>a. exp a / sum_list (map exp [1, 2])) [1, 2]) \<and>
   softmax_rows (rowwise (+) \<lparr>n_cols = 2, entries = [[1, 2]]\<rparr> [3]) =
     softmax_rows \<lparr>n_cols = 2, entries = [[1, 2]]\<rparr> \<and>
   (\<exists>r. softmax_loss_naive \<lparr>n_cols = 2, entries = [[0, 0]]\<rparr>
          \<lparr>n_cols = 1, entries = [[1]]\<rparr> [0] 0 = Inr r \<and>
        softmax_loss_vectorized \<lparr>n_cols = 2, entries = [[0, 0]]\<rparr>
          \<lparr>n_cols = 1, entries = [[1]]\<rparr> [0] 0 = Inr r \<and>
        r = (cross_entropy_loss \<lparr>n_cols = 2, entries = [[0, 0]]\<rparr>
               \<lparr>n_cols = 1, entries = [[1]]\<rparr> [0] 0,
             mk_matrix (shape0 \<lparr>n_cols = 2, entries = [[0, 0]]\<rparr>)
               (shape1 \<lparr>n_cols = 2, entries = [[0, 0]]\<rparr>)
               (loss_gradient \<lparr>n_cols = 2, entries = [[0, 0]]\<rparr>
                  \<lparr>n_cols = 1, entries = [[1]]\<rparr> [0] 0)))"
proof -
  let ?S = "\<lparr>n_cols = 2, entries = [[1, 2 :: real]]\<rparr>"
  let ?W = "\<lparr>n_cols = 2, entries = [[0, 0 :: real]]\<rparr>"
  let ?X = "\<lparr>n_cols = 1, entries = [[1 :: real]]\<rparr>"
  have S: "wf_matrix ?S" "length [3 :: real] = shape0 ?S" "0 < shape1 ?S"
    by (simp_all add: wf_matrix_def shape0_def shape1_def)
  have s: "[1, 2 :: real] \<noteq> []" by simp
  have sh: "shift_scores [1, 2] = Inr [- 1, 0]"
    by (simp add: shift_scores_def np_max_def)
  have shr: "shift_rows ?S = Inr \<lparr>n_cols = 2, entries = [[- 1, 0]]\<rparr>"
    by (simp add: shift_rows_def np_max_axis1_def shape1_def rowwise_def)
  obtain r where r: "softmax_loss_naive ?W ?X [0] 0 = Inr r"
    "softmax_loss_vectorized ?W ?X [0] 0 = Inr r"
    using softmax_loss_naive_eq [OF valid_example, of 0]
      softmax_loss_vectorized_eq [OF valid_example, of 0] by simp
  show ?thesis
    using S s sh shr r valid_example(1)
      max_subtraction_shift_invariance [of 3 "[1, 2]" "[0]" "[1]" 0 2 "(0, ?W)" ?S "[3]"
        ?W ?X 0]
    unfolding list_all_iff by (intro conjI exI [of _ r]) blast+
qed

section \<open>The returned matrix is the gradient of the returned loss\<close>

lemma set_entry_shape [simp]:
  "shape0 (set_entry W k j t) = shape0 W" "shape1 (set_entry W k j t) = shape1 W"
  by (simp_all add: set_entry_def shape0_def shape1_def)

lemma set_entry_nth:
  assumes "wf_matrix W" "k < shape0 W" "j < shape1 W" "k' < shape0 W" "c < shape1 W"
  shows "entries (set_entry W k j t) ! k' ! c = (if k' = k \<and> c = j then t else entries W ! k' ! c)"
proof -
  have "length (entries W ! k) = shape1 W"
    using assms(1,2) by (simp add: wf_matrix_def list_all_iff shape0_def shape1_def)
  then show ?thesis
    using assms by (auto simp: set_entry_def shape0_def nth_list_update)
qed

lemma softmax_prob_map:
  "m < C \<Longrightarrow> softmax_prob (map f [0..<C]) m = exp (f m) / (\<Sum>c<C. exp (f c))"
  by (simp add: softmax_prob_def o_def sum_list_upt_sum)

lemma class_scores_set_entry:
  assumes wf: "wf_matrix W" and k: "k < shape0 W" and j: "j < shape1 W"
  shows "class_scores (set_entry W k j t) X i =
         map (\<lambda>c. (\<Sum>k'<shape0 W. entries X ! i ! k' * entries W ! k' ! c)
                   + (if c = j then 1 else 0) * (entries X ! i ! k * (t - entries W ! k ! j)))
             [0..<shape1 W]"
proof -
  have "(\<Sum>k'<shape0 W. entries X ! i ! k' * entries (set_entry W k j t) ! k' ! c) =
        (\<Sum>k'<shape0 W. entries X ! i ! k' * entries W ! k' ! c)
          + (if c = j then 1 else 0) * (entries X ! i ! k * (t - entries W ! k ! j))"
    if c: "c < shape1 W" for c
  proof -
    have "(\<Sum>k'<shape0 W. entries X ! i ! k' * entries (set_entry W k j t) ! k' ! c) =
          (\<Sum>k'<shape0 W. entries X ! i ! k' * entries W ! k' ! c
              + (if k' = k then (if c = j then 1 else 0) * (entries X ! i ! k * (t - entries W ! k ! j)) else 0))"
      by (rule sum.cong) (auto simp: set_entry_nth [OF wf k j _ c] algebra_simps)
    also have "\<dots> = (\<Sum>k'<shape0 W. entries X ! i ! k' * entries W ! k' ! c)
          + (if c = j then 1 else 0) * (entries X ! i ! k * (t - entries W ! k ! j))"
      using k by (simp add: sum.distrib)
    finally show ?thesis .
  qed
  then show ?thesis by (simp add: class_scores_def)
qed

lemma regularization_set_entry:
  assumes wf: "wf_matrix W" and k: "k < shape0 W" and j: "j < shape1 W"
  shows "(\<Sum>k'<shape0 W. \<Sum>c<shape1 W. (entries (set_entry W k j t) ! k' ! c)\<^sup>2) =
         (\<Sum>k'<shape0 W. \<Sum>c<shape1 W.
            (entries W ! k' ! c + (if k' = k \<and> c = j then 1 else 0) * (t - entries W ! k ! j))\<^sup>2)"
  by (intro sum.cong refl) (auto simp: set_entry_nth [OF wf k j])

lemma sum_mult_indicator:
  assumes "j < (C :: nat)"
  shows "(\<Sum>c<C. g c * (if c = j then 1 else 0 :: real)) = g j"
proof -
  have "(\<Sum>c<C. g c * (if c = j then 1 else 0)) = (\<Sum>c<C. if c = j then g c else 0)"
    by (intro sum.cong) auto
  also have "\<dots> = g j"
    using assms by simp
  finally show ?thesis .
qed

lemma loss_partial_derivative:
  assumes v: "valid_input W X y" and n: "0 < shape0 X"
    and k: "k < shape0 W" and j: "j < shape1 W"
  shows "((\<lambda>t. cross_entropy_loss (set_entry W k j t) X y rg)
            has_real_derivative loss_gradient W X y rg k j) (at (entries W ! k ! j))"
proof -
  note wf = valid_inputD(1) [OF v]
  define w0 where "w0 = entries W ! k ! j"
  define xk where "xk i = entries X ! i ! k" for i
  define sc where "sc i c = (\<Sum>k'<shape0 W. entries X ! i ! k' * entries W ! k' ! c)" for i c
  define d :: "nat \<Rightarrow> real" where "d c = (if c = j then 1 else 0)" for c
  define f where "f t i c = sc i c + d c * (xk i * (t - w0))" for t i c
  define R where "R t = (\<Sum>k'<shape0 W. \<Sum>c<shape1 W.
            (entries W ! k' ! c + (if k' = k \<and> c = j then 1 else 0) * (t - w0))\<^sup>2)" for t
  define Z where "Z t i = (\<Sum>c<shape1 W. exp (f t i c))" for t i
  have Zpos: "0 < Z t i" for t i
    unfolding Z_def using j by (intro sum_pos) auto
  have cs: "class_scores (set_entry W k j t) X i = map (f t i) [0..<shape1 W]" for t i
    unfolding class_scores_set_entry [OF wf k j] f_def sc_def d_def xk_def w0_def by simp
  have cs0: "class_scores W X i = map (sc i) [0..<shape1 W]" for i
    by (simp add: class_scores_def sc_def)
  have L: "cross_entropy_loss (set_entry W k j t) X y rg =
           (\<Sum>i<shape0 X. ln (Z t i) - f t i (nat (y ! i))) / real (shape0 X) + 0.5 * rg * R t"
    for t
  proof -
    have "- ln (softmax_prob (class_scores (set_entry W k j t) X i) (nat (y ! i))) =
          ln (Z t i) - f t i (nat (y ! i))" if "i < shape0 X" for i
      using valid_inputD(7) [OF v that] Zpos [of t i]
      by (simp add: cs softmax_prob_map ln_div Z_def)
    then show ?thesis
      by (simp add: cross_entropy_loss_def regularization_set_entry [OF wf k j] R_def w0_def)
  qed
  have f0: "f w0 i c = sc i c" for i c by (simp add: f_def)
  have df: "((\<lambda>t. f t i c) has_real_derivative d c * xk i) (at w0)" for i c
    unfolding f_def by (auto intro!: derivative_eq_intros)
  have dZ: "((\<lambda>t. Z t i) has_real_derivative exp (sc i j) * xk i) (at w0)" for i
  proof -
    have "((\<lambda>t. Z t i) has_real_derivative (\<Sum>c<shape1 W. exp (f w0 i c) * (d c * xk i))) (at w0)"
      unfolding Z_def by (intro DERIV_sum DERIV_fun_exp df)
    moreover have "(\<Sum>c<shape1 W. exp (f w0 i c) * (d c * xk i)) = exp (sc i j) * xk i"
    proof -
      have "(\<Sum>c<shape1 W. exp (f w0 i c) * (d c * xk i)) =
            (\<Sum>c<shape1 W. if c = j then exp (sc i j) * xk i else 0)"
        by (intro sum.cong) (auto simp: f0 d_def)
      then show ?thesis using j by simp
    qed
    ultimately show ?thesis by simp
  qed
  have dln: "((\<lambda>t. ln (Z t i)) has_real_derivative exp (sc i j) * xk i / Z w0 i) (at w0)" for i
    using DERIV_chain' [OF dZ DERIV_ln_divide [OF Zpos [of w0 i]]] by (simp add: mult.commute)
  have each: "((\<lambda>t. ln (Z t i) - f t i (nat (y ! i))) has_real_derivative
               (softmax_prob (class_scores W X i) j - (if int j = y ! i then 1 else 0)) * xk i)
             (at w0)" if i: "i < shape0 X" for i
  proof -
    have "0 \<le> y ! i" using valid_inputD(6) [OF v i] by simp
    then have eq: "d (nat (y ! i)) = (if int j = y ! i then 1 else 0)"
      by (auto simp: d_def)
    have p: "softmax_prob (class_scores W X i) j = exp (sc i j) / Z w0 i"
      using j by (simp add: cs0 softmax_prob_map Z_def f0)
    have "((\<lambda>t. ln (Z t i) - f t i (nat (y ! i))) has_real_derivative
            exp (sc i j) * xk i / Z w0 i - d (nat (y ! i)) * xk i) (at w0)"
      by (intro DERIV_diff dln df)
    moreover have "exp (sc i j) * xk i / Z w0 i - d (nat (y ! i)) * xk i =
          (softmax_prob (class_scores W X i) j - (if int j = y ! i then 1 else 0)) * xk i"
      by (simp add: p eq algebra_simps)
    ultimately show ?thesis by simp
  qed
  have dsum: "((\<lambda>t. \<Sum>i<shape0 X. ln (Z t i) - f t i (nat (y ! i))) has_real_derivative
               (\<Sum>i<shape0 X. (softmax_prob (class_scores W X i) j
                                 - (if int j = y ! i then 1 else 0)) * xk i)) (at w0)"
    by (intro DERIV_sum each) simp
  have dR: "(R has_real_derivative 2 * w0) (at w0)"
  proof -
    have "(R has_real_derivative
            (\<Sum>k'<shape0 W. \<Sum>c<shape1 W.
               2 * (entries W ! k' ! c + (if k' = k \<and> c = j then 1 else 0) * (w0 - w0))
                 * (if k' = k \<and> c = j then 1 else 0))) (at w0)"
      unfolding R_def
      by (intro DERIV_sum) (auto intro!: derivative_eq_intros)
    moreover have "(\<Sum>k'<shape0 W. \<Sum>c<shape1 W.
               2 * (entries W ! k' ! c + (if k' = k \<and> c = j then 1 else 0) * (w0 - w0))
                 * (if k' = k \<and> c = j then 1 else 0)) = 2 * w0"
    proof -
      have "(\<Sum>c<shape1 W.
               2 * (entries W ! k' ! c + (if k' = k \<and> c = j then 1 else 0) * (w0 - w0))
                 * (if k' = k \<and> c = j then 1 else 0)) =
            (if k' = k then 2 * w0 else 0) * (if k' = k then 1 else 0)" for k'
        using sum_mult_indicator [OF j, of "\<lambda>c. 2 * entries W ! k ! c"]
        by (simp add: w0_def)
      then have "(\<Sum>k'<shape0 W. \<Sum>c<shape1 W.
               2 * (entries W ! k' ! c + (if k' = k \<and> c = j then 1 else 0) * (w0 - w0))
                 * (if k' = k \<and> c = j then 1 else 0)) =
            (\<Sum>k'<shape0 W. (if k' = k then 2 * w0 else 0) * (if k' = k then 1 else 0))"
        by simp
      also have "\<dots> = 2 * w0"
        using sum_mult_indicator [OF k, of "\<lambda>k'. if k' = k then 2 * w0 else 0"] by simp
      finally show ?thesis .
    qed
    ultimately show ?thesis by simp
  qed
  have "((\<lambda>t. (\<Sum>i<shape0 X. ln (Z t i) - f t i (nat (y ! i))) / real (shape0 X)
               + 0.5 * rg * R t) has_real_derivative
          (\<Sum>i<shape0 X. (softmax_prob (class_scores W X i) j
                                 - (if int j = y ! i then 1 else 0)) * xk i) / real (shape0 X)
          + 0.5 * rg * (2 * w0)) (at w0)"
    by (intro DERIV_add DERIV_cdivide DERIV_cmult dsum dR)
  then show ?thesis
    unfolding L w0_def [symmetric] by (simp add: loss_gradient_def xk_def w0_def)
qed

lemma valid_set_entry:
  assumes v: "valid_input W X y" and k: "k < shape0 W"
  shows "valid_input (set_entry W k j t) X y"
proof -
  have "length (entries W ! k) = n_cols W"
    using valid_inputD(1) [OF v] k by (simp add: wf_matrix_def list_all_iff shape0_def)
  then have "wf_matrix (set_entry W k j t)"
    using valid_inputD(1) [OF v]
    by (auto simp: wf_matrix_def list_all_iff set_entry_def
             dest!: set_update_subset_insert [THEN subsetD])
  then show ?thesis using v by (simp add: valid_input_def)
qed

text \<open>
  Claim C2, on batches with at least one sample: for \<open>W\<close> of shape \<open>(D, C)\<close>, \<open>X\<close> of
  shape \<open>(N, D)\<close> with \<open>N \<ge> 1\<close> and \<open>N\<close> labels in \<open>[0, C)\<close>, \<open>softmax_loss_naive\<close>
  returns the mean over the samples of the negative log of the softmax probability
  of the true class plus \<open>0.5 * reg * sum (W\<^sup>2)\<close>, and the matrix whose entry \<open>(k, j)\<close> is
  the mean over the samples of \<open>(p\<^sub>i\<^sub>j - [j = y[i]]) * X[i][k]\<close> plus \<open>reg * W[k][j]\<close>. That
  matrix is the gradient of the returned loss: each entry is the derivative of the loss
  that the function returns when the matching entry of \<open>W\<close> varies.
\<close>

theorem softmax_loss_naive_correct:
  assumes "valid_input W X y" and "0 < shape0 X"
  shows "softmax_loss_naive W X y rg =
           Inr (cross_entropy_loss W X y rg,
                mk_matrix (shape0 W) (shape1 W) (loss_gradient W X y rg)) \<and>
         (\<forall>k<shape0 W. \<forall>j<shape1 W.
            ((\<lambda>t. fst (projr (softmax_loss_naive (set_entry W k j t) X y rg)))
               has_real_derivative
             entries (snd (projr (softmax_loss_naive W X y rg))) ! k ! j)
              (at (entries W ! k ! j)))"
proof (intro conjI allI impI)
  show r: "softmax_loss_naive W X y rg =
           Inr (cross_entropy_loss W X y rg,
                mk_matrix (shape0 W) (shape1 W) (loss_gradient W X y rg))"
    using assms by (rule softmax_loss_naive_eq)
  fix k j assume k: "k < shape0 W" and j: "j < shape1 W"
  have "(\<lambda>t. fst (projr (softmax_loss_naive (set_entry W k j t) X y rg))) =
        (\<lambda>t. cross_entropy_loss (set_entry W k j t) X y rg)"
    using softmax_loss_naive_eq [OF valid_set_entry [OF assms(1) k] assms(2)] by simp
  moreover have "entries (snd (projr (softmax_loss_naive W X y rg))) ! k ! j =
                 loss_gradient W X y rg k j"
    using k j by (simp add: r)
  ultimately show "((\<lambda>t. fst (projr (softmax_loss_naive (set_entry W k j t) X y rg)))
               has_real_derivative
             entries (snd (projr (softmax_loss_naive W X y rg))) ! k ! j)
              (at (entries W ! k ! j))"
    using loss_partial_derivative [OF assms k j, of rg] by simp
qed

theorem softmax_loss_naive_correct_witness:
  "valid_input \<lparr>n_cols = 2, entries = [[0, 0]]\<rparr> \<lparr>n_cols = 1, entries = [[1]]\<rparr> [0] \<and>
   0 < shape0 \<lparr>n_cols = 1, entries = [[1]]\<rparr> \<and>
   0 < shape0 \<lparr>n_cols = 2, entries = [[0, 0 :: real]]\<rparr> \<and>
   1 < shape1 \<lparr>n_cols = 2, entries = [[0, 0 :: real]]\<rparr> \<and>
   softmax_loss_naive \<lparr>n_cols = 2, entries = [[0, 0]]\<rparr> \<lparr>n_cols = 1, entries = [[1]]\<rparr> [0] 1 =
     Inr (cross_entropy_loss \<lparr>n_cols = 2, entries = [[0, 0]]\<rparr>
            \<lparr>n_cols = 1, entries = [[1]]\<rparr> [0] 1,
          mk_matrix (shape0 \<lparr>n_cols = 2, entries = [[0, 0]]\<rparr>)
            (shape1 \<lparr>n_cols = 2, entries = [[0, 0]]\<rparr>)
            (loss_gradient \<lparr>n_cols = 2, entries = [[0, 0]]\<rparr>
               \<lparr>n_cols = 1, entries = [[1]]\<rparr> [0] 1)) \<and>
   ((\<lambda>t. fst (projr (softmax_loss_naive (set_entry \<lparr>n_cols = 2, entries = [[0, 0]]\<rparr> 0 1 t)
                         \<lparr>n_cols = 1, entries = [[1]]\<rparr> [0] 1)))
      has_real_derivative
    entries (snd (projr (softmax_loss_naive \<lparr>n_cols = 2, entries = [[0, 0]]\<rparr>
                           \<lparr>n_cols = 1, entries = [[1]]\<rparr> [0] 1))) ! 0 ! 1)
     (at (entries \<lparr>n_cols = 2, entries = [[0, 0]]\<rparr> ! 0 ! 1))"
proof -
  have s: "0 < shape0 \<lparr>n_cols = 2, entries = [[0, 0 :: real]]\<rparr>"
    "1 < shape1 \<lparr>n_cols = 2, entries = [[0, 0 :: real]]\<rparr>"
    by (simp_all add: shape0_def shape1_def)
  show ?thesis
    using valid_example s softmax_loss_naive_correct [OF valid_example, of 1] by blast
qed

text \<open>
  On an empty batch nothing is returned: the loss is still the Python float \<open>0.0\<close>
  when it is divided by the number of samples, the integer \<open>0\<close>.
\<close>

theorem naive_empty_batch_raises:
  "valid_input \<lparr>n_cols = 2, entries = [[1, 2], [3, 4]]\<rparr> \<lparr>n_cols = 2, entries = []\<rparr> [] \<and>
   softmax_loss_naive \<lparr>n_cols = 2, entries = [[1, 2], [3, 4]]\<rparr> \<lparr>n_cols = 2, entries = []\<rparr> [] 1
     = Inl ZeroDivisionError"
  by (simp add: valid_input_def wf_matrix_def shape0_def shape1_def softmax_loss_naive_def)

section \<open>The training call and the inference call\<close>

lemma and_then_Inr_iff: "and_then m f = Inr r \<longleftrightarrow> (\<exists>v. m = Inr v \<and> f v = Inr r)"
  by (cases m) (simp_all add: and_then_def)

lemma and_then_simps [simp]:
  "and_then (Inl e) f = Inl e" "and_then (Inr v) f = f v"
  by (simp_all add: and_then_def)

lemma get_param_Inr_iff: "get_param ps k = Inr t \<longleftrightarrow> ps k = Some t"
  by (simp add: get_param_def split: option.splits)

lemma backward_Inr:
  assumes "backward L rg W1 W2 W3 scores cache1 cache2 cache2_relu cache3 y = Inr r"
  shows "\<exists>l0 dout dout3 dW3 db3 dout2_relu dout2 dW2 db2 dout1 dW1 db1 gW1 gW2 gW3.
     softmax_loss L scores y = Inr (l0, dout) \<and>
     affine_backward L dout cache3 = Inr (dout3, dW3, db3) \<and>
     relu_backward L dout3 cache2_relu = Inr dout2_relu \<and>
     affine_backward L dout2_relu cache2 = Inr (dout2, dW2, db2) \<and>
     conv_relu_pool_backward L dout2 cache1 = Inr (dout1, dW1, db1) \<and>
     np_add dW3 (np_scale rg W3) = Inr gW3 \<and>
     np_add dW2 (np_scale rg W2) = Inr gW2 \<and>
     np_add dW1 (np_scale rg W1) = Inr gW1 \<and>
     r = LossGrads (l0 + 0.5 * rg * (np_sum_sq W1 + np_sum_sq W2 + np_sum_sq W3))
           [''W3'' \<mapsto> gW3, ''b3'' \<mapsto> db3, ''W2'' \<mapsto> gW2, ''b2'' \<mapsto> db2,
            ''W1'' \<mapsto> gW1, ''b1'' \<mapsto> db1]"
  using assms unfolding backward_def Let_def
  by (auto simp: and_then_Inr_iff)

lemma loss_Inr:
  assumes "loss L net X y = Inr r"
  shows "\<exists>W1 b1 W2 b2 W3 b3 cp out1 cache1 out2 cache2 out2_relu cache2_relu scores cache3.
     params net ''W1'' = Some W1 \<and> params net ''b1'' = Some b1 \<and>
     params net ''W2'' = Some W2 \<and> params net ''b2'' = Some b2 \<and>
     params net ''W3'' = Some W3 \<and> params net ''b3'' = Some b3 \<and>
     conv_param_of W1 = Inr cp \<and>
     conv_relu_pool_forward L X W1 b1 cp pool_param_of = Inr (out1, cache1) \<and>
     affine_forward L out1 W2 b2 = Inr (out2, cache2) \<and>
     relu_forward L out2 = Inr (out2_relu, cache2_relu) \<and>
     affine_forward L out2_relu W3 b3 = Inr (scores, cache3) \<and>
     loss L net X None = Inr (Scores scores) \<and>
     (case y of
        None \<Rightarrow> r = Scores scores
      | Some labels \<Rightarrow>
          backward L (reg net) W1 W2 W3 scores cache1 cache2 cache2_relu cache3 labels = Inr r)"
proof -
  from assms obtain W1 b1 W2 b2 W3 b3 cp out1 cache1 out2 cache2 out2_relu cache2_relu
    scores cache3
    where p: "params net ''W1'' = Some W1" "params net ''b1'' = Some b1"
      "params net ''W2'' = Some W2" "params net ''b2'' = Some b2"
      "params net ''W3'' = Some W3" "params net ''b3'' = Some b3"
      and f: "conv_param_of W1 = Inr cp"
      "conv_relu_pool_forward L X W1 b1 cp pool_param_of = Inr (out1, cache1)"
      "affine_forward L out1 W2 b2 = Inr (out2, cache2)"
      "relu_forward L out2 = Inr (out2_relu, cache2_relu)"
      "affine_forward L out2_relu W3 b3 = Inr (scores, cache3)"
      and r: "(case y of
                None \<Rightarrow> Inr (Scores scores)
              | Some labels \<Rightarrow>
                  backward L (reg net) W1 W2 W3 scores cache1 cache2 cache2_relu cache3 labels)
              = Inr r"
    unfolding loss_def by (auto simp: and_then_Inr_iff get_param_Inr_iff)
  have g: "get_param (params net) ''W1'' = Inr W1" "get_param (params net) ''b1'' = Inr b1"
    "get_param (params net) ''W2'' = Inr W2" "get_param (params net) ''b2'' = Inr b2"
    "get_param (params net) ''W3'' = Inr W3" "get_param (params net) ''b3'' = Inr b3"
    using p by (simp_all add: get_param_Inr_iff)
  have n: "loss L net X None = Inr (Scores scores)"
    by (simp add: loss_def g f)
  have c: "(case y of
        None \<Rightarrow> r = Scores scores
      | Some labels \<Rightarrow>
          backward L (reg net) W1 W2 W3 scores cache1 cache2 cache2_relu cache3 labels = Inr r)"
    using r by (cases y) auto
  show ?thesis
    by (intro exI conjI) (rule p f n c)+
qed

text \<open>
  Claim C3. Whenever the training call \<open>loss(X, y)\<close> returns, it returns the loss
  of \<open>softmax_loss\<close> on the scores that inference gives for \<open>X\<close>, plus
  \<open>0.5 * reg * (sum W1\<^sup>2 + sum W2\<^sup>2 + sum W3\<^sup>2)\<close>, each sum over the squares of all the
  entries of the weight, and a dictionary with exactly the
  six parameter keys, all of them keys of the parameter dictionary. Under each weight
  key it holds the gradient of the backward pass plus \<open>reg\<close> times the weight (entry
  by entry when the two have one shape, as the conventional layers give them); under
  each bias key it holds the gradient of the backward pass as it is.
\<close>

theorem loss_training:
  assumes "loss L net X (Some y) = Inr r"
  shows "\<exists>W1 W2 W3 scores l0 dout g cache1 cache2 cache2_relu cache3
           dout3 dW3 db3 dout2_relu dout2 dW2 db2 dout1 dW1 db1 gW1 gW2 gW3.
     params net ''W1'' = Some W1 \<and> params net ''W2'' = Some W2 \<and>
     params net ''W3'' = Some W3 \<and>
     loss L net X None = Inr (Scores scores) \<and>
     softmax_loss L scores y = Inr (l0, dout) \<and>
     r = LossGrads (l0 + 0.5 * reg net * ((\<Sum>w\<leftarrow>vals W1. w\<^sup>2) + (\<Sum>w\<leftarrow>vals W2. w\<^sup>2)
                                          + (\<Sum>w\<leftarrow>vals W3. w\<^sup>2))) g \<and>
     dom g = {''W1'', ''b1'', ''W2'', ''b2'', ''W3'', ''b3''} \<and>
     dom g \<subseteq> dom (params net) \<and>
     affine_backward L dout cache3 = Inr (dout3, dW3, db3) \<and>
     relu_backward L dout3 cache2_relu = Inr dout2_relu \<and>
     affine_backward L dout2_relu cache2 = Inr (dout2, dW2, db2) \<and>
     conv_relu_pool_backward L dout2 cache1 = Inr (dout1, dW1, db1) \<and>
     np_add dW1 (np_scale (reg net) W1) = Inr gW1 \<and>
     np_add dW2 (np_scale (reg net) W2) = Inr gW2 \<and>
     np_add dW3 (np_scale (reg net) W3) = Inr gW3 \<and>
     g ''W1'' = Some gW1 \<and> g ''W2'' = Some gW2 \<and> g ''W3'' = Some gW3 \<and>
     g ''b1'' = Some db1 \<and> g ''b2'' = Some db2 \<and> g ''b3'' = Some db3 \<and>
     (shape dW1 = shape W1 \<longrightarrow>
        vals gW1 = map2 (+) (vals dW1) (map (\<lambda>w. reg net * w) (vals W1))) \<and>
     (shape dW2 = shape W2 \<longrightarrow>
        vals gW2 = map2 (+) (vals dW2) (map (\<lambda>w. reg net * w) (vals W2))) \<and>
     (shape dW3 = shape W3 \<longrightarrow>
        vals gW3 = map2 (+) (vals dW3) (map (\<lambda>w. reg net * w) (vals W3)))"
proof -
  from loss_Inr [OF assms] obtain W1 b1 W2 b2 W3 b3 scores cache1 cache2 cache2_relu cache3
    where p: "params net ''W1'' = Some W1" "params net ''W2'' = Some W2"
      "params net ''W3'' = Some W3"
      and q: "params net ''b1'' = Some b1" "params net ''b2'' = Some b2"
      "params net ''b3'' = Some b3"
      and f: "loss L net X None = Inr (Scores scores)"
      and b: "backward L (reg net) W1 W2 W3 scores cache1 cache2 cache2_relu cache3 y = Inr r"
    by auto
  from backward_Inr [OF b] obtain l0 dout dout3 dW3 db3 dout2_relu dout2 dW2 db2 dout1 dW1 db1
    gW1 gW2 gW3
    where t: "softmax_loss L scores y = Inr (l0, dout)"
      "affine_backward L dout cache3 = Inr (dout3, dW3, db3)"
      "relu_backward L dout3 cache2_relu = Inr dout2_relu"
      "affine_backward L dout2_relu cache2 = Inr (dout2, dW2, db2)"
      "conv_relu_pool_backward L dout2 cache1 = Inr (dout1, dW1, db1)"
      and a: "np_add dW3 (np_scale (reg net) W3) = Inr gW3"
      "np_add dW2 (np_scale (reg net) W2) = Inr gW2"
      "np_add dW1 (np_scale (reg net) W1) = Inr gW1"
      and r0: "r = LossGrads (l0 + 0.5 * reg net * (np_sum_sq W1 + np_sum_sq W2 + np_sum_sq W3))
           [''W3'' \<mapsto> gW3, ''b3'' \<mapsto> db3, ''W2'' \<mapsto> gW2, ''b2'' \<mapsto> db2,
            ''W1'' \<mapsto> gW1, ''b1'' \<mapsto> db1]"
    by blast
  have r: "r = LossGrads (l0 + 0.5 * reg net * ((\<Sum>w\<leftarrow>vals W1. w\<^sup>2) + (\<Sum>w\<leftarrow>vals W2. w\<^sup>2)
                                          + (\<Sum>w\<leftarrow>vals W3. w\<^sup>2)))
           [''W3'' \<mapsto> gW3, ''b3'' \<mapsto> db3, ''W2'' \<mapsto> gW2, ''b2'' \<mapsto> db2,
            ''W1'' \<mapsto> gW1, ''b1'' \<mapsto> db1]"
    using r0 by (simp add: np_sum_sq_def)
  let ?g = "[''W3'' \<mapsto> gW3, ''b3'' \<mapsto> db3, ''W2'' \<mapsto> gW2, ''b2'' \<mapsto> db2,
             ''W1'' \<mapsto> gW1, ''b1'' \<mapsto> db1]"
  have d: "dom ?g = {''W1'', ''b1'', ''W2'', ''b2'', ''W3'', ''b3''}"
    by auto
  have k: "dom ?g \<subseteq> dom (params net)"
    using p q unfolding d by auto
  have g: "?g ''W1'' = Some gW1" "?g ''W2'' = Some gW2" "?g ''W3'' = Some gW3"
    "?g ''b1'' = Some db1" "?g ''b2'' = Some db2" "?g ''b3'' = Some db3"
    by simp_all
  have e: "shape dW1 = shape W1 \<longrightarrow>
        vals gW1 = map2 (+) (vals dW1) (map (\<lambda>w. reg net * w) (vals W1))"
    "shape dW2 = shape W2 \<longrightarrow>
        vals gW2 = map2 (+) (vals dW2) (map (\<lambda>w. reg net * w) (vals W2))"
    "shape dW3 = shape W3 \<longrightarrow>
        vals gW3 = map2 (+) (vals dW3) (map (\<lambda>w. reg net * w) (vals W3))"
    using a by (auto simp: np_add_def np_scale_def)
  show ?thesis
    by (intro exI conjI) (rule p f t r d k a g e)+
qed

lemma example_scores:
  "loss zero_layers example_net example_X None = Inr (Scores (zero_tensor [1, 2]))"
  by (simp add: loss_def example_net_def example_X_def get_param_def conv_param_of_def
      zero_layers_def zero_tensor_def)

lemma example_loss:
  "loss zero_layers example_net example_X (Some [0]) =
     Inr (LossGrads (15 / 4)
            [''W3'' \<mapsto> \<lparr>shape = [1, 2], dtype = Float32, vals = [1 / 2, 3 / 2]\<rparr>,
             ''b3'' \<mapsto> \<lparr>shape = [2], dtype = Float32, vals = [0, 0]\<rparr>,
             ''W2'' \<mapsto> \<lparr>shape = [1, 1], dtype = Float32, vals = [1]\<rparr>,
             ''b2'' \<mapsto> \<lparr>shape = [1], dtype = Float32, vals = [0]\<rparr>,
             ''W1'' \<mapsto> \<lparr>shape = [1, 1, 1, 1], dtype = Float32, vals = [1 / 2]\<rparr>,
             ''b1'' \<mapsto> \<lparr>shape = [1], dtype = Float32, vals = [0]\<rparr>])"
  by (simp add: loss_def backward_def example_net_def example_X_def get_param_def conv_param_of_def
      zero_layers_def zero_tensor_def zeros_of_def np_add_def np_scale_def np_sum_sq_def)

theorem loss_training_witness:
  "\<exists>g. loss zero_layers example_net example_X (Some [0]) = Inr (LossGrads (15 / 4) g) \<and>
        dom g = {''W1'', ''b1'', ''W2'', ''b2'', ''W3'', ''b3''} \<and>
        map_option vals (g ''W1'') = Some [1 / 2] \<and>
        map_option vals (g ''W2'') = Some [1] \<and>
        map_option vals (g ''W3'') = Some [1 / 2, 3 / 2] \<and>
        map_option vals (g ''b1'') = Some [0] \<and>
        map_option vals (g ''b2'') = Some [0] \<and>
        map_option vals (g ''b3'') = Some [0, 0]"
proof -
  let ?G = "[''W3'' \<mapsto> \<lparr>shape = [1, 2], dtype = Float32, vals = [1 / 2, 3 / 2]\<rparr>,
             ''b3'' \<mapsto> \<lparr>shape = [2], dtype = Float32, vals = [0, 0]\<rparr>,
             ''W2'' \<mapsto> \<lparr>shape = [1, 1], dtype = Float32, vals = [1]\<rparr>,
             ''b2'' \<mapsto> \<lparr>shape = [1], dtype = Float32, vals = [0]\<rparr>,
             ''W1'' \<mapsto> \<lparr>shape = [1, 1, 1, 1], dtype = Float32, vals = [1 / 2]\<rparr>,
             ''b1'' \<mapsto> \<lparr>shape = [1], dtype = Float32, vals = [0 :: real]\<rparr>]"
  have h: "loss zero_layers example_net example_X (Some [0]) = Inr (LossGrads (15 / 4) ?G)"
    by (rule example_loss)
  from loss_training [OF h] obtain W1 W2 W3 scores l0 dout g
    where p: "params example_net ''W1'' = Some W1" "params example_net ''W2'' = Some W2"
      "params example_net ''W3'' = Some W3"
      and l: "softmax_loss zero_layers scores [0] = Inr (l0, dout)"
      and r: "LossGrads (15 / 4) ?G = LossGrads (l0 + 0.5 * reg example_net *
                ((\<Sum>w\<leftarrow>vals W1. w\<^sup>2) + (\<Sum>w\<leftarrow>vals W2. w\<^sup>2) + (\<Sum>w\<leftarrow>vals W3. w\<^sup>2))) g"
      and d: "dom g = {''W1'', ''b1'', ''W2'', ''b2'', ''W3'', ''b3''}"
    by (elim exE conjE) (rule that; assumption)
  have W: "W1 = \<lparr>shape = [1, 1, 1, 1], dtype = Float32, vals = [1]\<rparr>"
    "W2 = \<lparr>shape = [1, 1], dtype = Float32, vals = [2]\<rparr>"
    "W3 = \<lparr>shape = [1, 2], dtype = Float32, vals = [1, 3]\<rparr>"
    using p by (simp_all add: example_net_def)
  have l0: "l0 = 0"
    using l by (simp add: zero_layers_def)
  from r have g: "?G = g"
    by (rule loss_result.inject(2) [THEN iffD1, THEN conjunct2])
  have v: "l0 + 0.5 * reg example_net *
             ((\<Sum>w\<leftarrow>vals W1. w\<^sup>2) + (\<Sum>w\<leftarrow>vals W2. w\<^sup>2) + (\<Sum>w\<leftarrow>vals W3. w\<^sup>2)) = 15 / 4"
    unfolding l0 W by (simp add: example_net_def)
  have e: "loss zero_layers example_net example_X (Some [0]) = Inr (LossGrads (15 / 4) g)"
    using h unfolding r v .
  have m: "map_option vals (g ''W1'') = Some [1 / 2]" "map_option vals (g ''W2'') = Some [1]"
    "map_option vals (g ''W3'') = Some [1 / 2, 3 / 2]" "map_option vals (g ''b1'') = Some [0]"
    "map_option vals (g ''b2'') = Some [0]" "map_option vals (g ''b3'') = Some [0, 0]"
    unfolding g [symmetric] by simp_all
  show ?thesis
    by (rule exI [of _ g]) (intro conjI; rule e d m)
qed

lemma conv_shapeD:
  "conventional_shapes L \<Longrightarrow> conv_relu_pool_forward L x w b cp pp = Inr (out, c) \<Longrightarrow>
   \<exists>n xs os. shape x = n # xs \<and> shape out = n # os"
  unfolding conventional_shapes_def by blast

lemma affine_shapeD:
  "conventional_shapes L \<Longrightarrow> affine_forward L x w b = Inr (out, c) \<Longrightarrow>
   \<exists>n xs d m. shape x = n # xs \<and> shape w = [d, m] \<and> shape out = [n, m]"
  unfolding conventional_shapes_def by blast

lemma relu_shapeD:
  "conventional_shapes L \<Longrightarrow> relu_forward L x = Inr (out, c) \<Longrightarrow> shape out = shape x"
  unfolding conventional_shapes_def by blast

lemma inference_scores_shape:
  assumes c: "conventional_shapes L" and X: "shape X = [N, C, H, W]"
    and W3: "params net ''W3'' = Some W3" "shape W3 = [hid, nc]"
    and r: "loss L net X None = Inr r"
  shows "\<exists>scores. r = Scores scores \<and> shape scores = [N, nc]"
proof -
  from loss_Inr [OF r] obtain W1 b1 W2 b2 W3' b3 cp out1 cache1 out2 cache2 out2_relu cache2_relu
    scores cache3
    where p: "params net ''W3'' = Some W3'"
      and f: "conv_relu_pool_forward L X W1 b1 cp pool_param_of = Inr (out1, cache1)"
      "affine_forward L out1 W2 b2 = Inr (out2, cache2)"
      "relu_forward L out2 = Inr (out2_relu, cache2_relu)"
      "affine_forward L out2_relu W3' b3 = Inr (scores, cache3)"
      and s: "r = Scores scores"
    by auto
  have W3': "W3' = W3" using p W3(1) by simp
  from conv_shapeD [OF c f(1)] X obtain os where o1: "shape out1 = N # os"
    by auto
  from affine_shapeD [OF c f(2)] o1 obtain m where o2: "shape out2 = [N, m]"
    by auto
  from relu_shapeD [OF c f(3)] o2 have o3: "shape out2_relu = [N, m]"
    by simp
  from affine_shapeD [OF c f(4)] o3 W3(2) have "shape scores = [N, nc]"
    unfolding W3' by auto
  with s show ?thesis by simp
qed

text \<open>
  Claim C4. Without labels, \<open>loss(X)\<close> returns the output of the last affine layer and
  nothing else: the result does not depend on \<open>softmax_loss\<close> or on any backward
  layer. With layers of the conventional shapes, an input batch of shape
  \<open>(N, C, H, W)\<close> and \<open>W3\<close> of shape \<open>(hidden, numClasses)\<close>, the scores have shape
  \<open>(N, numClasses)\<close>.
\<close>

theorem loss_inference:
  "loss (L\<lparr>softmax_loss := sl, affine_backward := ab, relu_backward := rb,
           conv_relu_pool_backward := cb\<rparr>) net X None = loss L net X None \<and>
   (\<forall>r. loss L net X None = Inr r \<longrightarrow>
      (\<exists>scores h W3 b3 c. params net ''W3'' = Some W3 \<and> params net ''b3'' = Some b3 \<and>
         affine_forward L h W3 b3 = Inr (scores, c) \<and> r = Scores scores)) \<and>
   (\<forall>r N C H W W3 hid nc.
      conventional_shapes L \<and> shape X = [N, C, H, W] \<and>
      params net ''W3'' = Some W3 \<and> shape W3 = [hid, nc] \<and> loss L net X None = Inr r \<longrightarrow>
      (\<exists>scores. r = Scores scores \<and> shape scores = [N, nc]))"
proof (intro conjI allI impI)
  show "loss (L\<lparr>softmax_loss := sl, affine_backward := ab, relu_backward := rb,
           conv_relu_pool_backward := cb\<rparr>) net X None = loss L net X None"
    by (simp add: loss_def)
  show "\<exists>scores h W3 b3 c. params net ''W3'' = Some W3 \<and> params net ''b3'' = Some b3 \<and>
         affine_forward L h W3 b3 = Inr (scores, c) \<and> r = Scores scores"
    if "loss L net X None = Inr r" for r
  proof -
    from loss_Inr [OF that] obtain W3 b3 out2_relu scores cache3
      where "params net ''W3'' = Some W3" "params net ''b3'' = Some b3"
        "affine_forward L out2_relu W3 b3 = Inr (scores, cache3)" "r = Scores scores"
      by auto
    then show ?thesis by blast
  qed
  show "\<exists>scores. r = Scores scores \<and> shape scores = [N, nc]"
    if "conventional_shapes L \<and> shape X = [N, C, H, W] \<and>
      params net ''W3'' = Some W3 \<and> shape W3 = [hid, nc] \<and> loss L net X None = Inr r"
    for r N C H W W3 hid nc
    using that inference_scores_shape by blast
qed

lemma zero_layers_conventional: "conventional_shapes zero_layers"
  unfolding conventional_shapes_def
  by (auto simp: zero_layers_def zero_tensor_def split: list.splits)

theorem loss_inference_witness:
  "conventional_shapes zero_layers \<and> shape example_X = [1, 1, 2, 2] \<and>
   params example_net ''W3'' = Some \<lparr>shape = [1, 2], dtype = Float32, vals = [1, 3]\<rparr> \<and>
   shape \<lparr>shape = [1, 2], dtype = Float32, vals = [1, 3]\<rparr> = [1, 2] \<and>
   loss zero_layers example_net example_X None = Inr (Scores (zero_tensor [1, 2])) \<and>
   (\<exists>scores. Scores (zero_tensor [1, 2]) = Scores scores \<and> shape scores = [1, 2])"
proof -
  have h: "shape example_X = [1, 1, 2, 2]"
    "params example_net ''W3'' = Some \<lparr>shape = [1, 2], dtype = Float32, vals = [1, 3]\<rparr>"
    "shape \<lparr>shape = [1, 2], dtype = Float32, vals = [1, 3]\<rparr> = [1, 2]"
    by (simp_all add: example_X_def example_net_def)
  note t = loss_inference [where L = zero_layers and net = example_net and X = example_X
      and sl = "softmax_loss zero_layers" and ab = "affine_backward zero_layers"
      and rb = "relu_backward zero_layers" and cb = "conv_relu_pool_backward zero_layers"]
  from t have "\<exists>scores. Scores (zero_tensor [1, 2]) = Scores scores \<and> shape scores = [1, 2]"
    using zero_layers_conventional h example_scores by blast
  then show ?thesis
    using zero_layers_conventional h example_scores by blast
qed

section \<open>The constructor\<close>

lemma randn_Inr_iff:
  "randn rnd pos dims = Inr (t, pos') \<longleftrightarrow>
     (\<forall>d\<in>set dims. 0 \<le> d) \<and>
     t = \<lparr>shape = map nat dims, dtype = Float64,
          vals = map rnd [pos..<pos + prod_list (map nat dims)]\<rparr> \<and>
     pos' = pos + prod_list (map nat dims)"
proof (cases "list_ex (\<lambda>d. d < 0) dims")
  case True
  then obtain d where "d \<in> set dims" "d < 0" by (auto simp: list_ex_iff)
  then have "\<not> (\<forall>d\<in>set dims. 0 \<le> d)" using linorder_not_le by blast
  with True show ?thesis by (simp add: randn_def)
next
  case False
  then have "\<forall>d\<in>set dims. 0 \<le> d" by (auto simp: list_ex_iff not_less)
  with False show ?thesis by (auto simp: randn_def Let_def)
qed

lemma np_zeros_Inr_iff:
  "np_zeros n = Inr t \<longleftrightarrow>
     0 \<le> n \<and> t = \<lparr>shape = [nat n], dtype = Float64, vals = replicate (nat n) 0\<rparr>"
  by (auto simp: np_zeros_def)

lemma round53_small:
  assumes "m < 2 ^ 53"
  shows "round53 m = m"
proof -
  have "floorlog 2 m \<le> 53" using assms by (simp add: floorlog_le_iff)
  then have "floorlog 2 m - 53 = 0" by simp
  then show ?thesis by (simp add: round53_def)
qed

lemma int_of_quarter_small:
  assumes "\<bar>a\<bar> < 2 ^ 53"
  shows "int_of_quarter a = Inr (if 0 \<le> a then a div 4 else - ((- a) div 4))"
proof -
  have m: "nat \<bar>a\<bar> < 2 ^ 53" using assms by (simp add: nat_less_iff)
  have "(2 :: nat) ^ 53 \<le> 2 ^ 1026" by (rule power_increasing) simp_all
  with m have lt: "\<not> (2 :: nat) ^ 1026 \<le> nat \<bar>a\<bar>" by linarith
  have d: "int (nat \<bar>a\<bar> div 4) = \<bar>a\<bar> div 4" by (simp add: zdiv_int)
  have "int_of_quarter a =
        Inr (if 0 \<le> a then int (nat \<bar>a\<bar> div 4) else - int (nat \<bar>a\<bar> div 4))"
    unfolding int_of_quarter_def Let_def round53_small [OF m] using lt by (simp only: if_False)
  then show ?thesis
    unfolding d by (cases "0 \<le> a") simp_all
qed

lemma init_Inr:
  assumes "init rnd (C, H, W) nf fs hid nc ws rg dt = Inr net"
  shows "\<exists>r1 b1 quarter r2 b2 r3 b3.
     int_of_quarter (H * W) = Inr quarter \<and>
     0 \<le> nf \<and> 0 \<le> C \<and> 0 \<le> fs \<and> 0 \<le> hid \<and> 0 \<le> nc \<and> 0 \<le> quarter * nf \<and>
     shape r1 = [nat nf, nat C, nat fs, nat fs] \<and> shape b1 = [nat nf] \<and>
     shape r2 = [nat (quarter * nf), nat hid] \<and> shape b2 = [nat hid] \<and>
     shape r3 = [nat hid, nat nc] \<and> shape b3 = [nat nc] \<and>
     dtype r1 = Float64 \<and> dtype b1 = Float64 \<and> dtype r2 = Float64 \<and>
     dtype b2 = Float64 \<and> dtype r3 = Float64 \<and> dtype b3 = Float64 \<and>
     params net ''W1'' = Some (astype (np_scale ws r1) dt) \<and>
     params net ''b1'' = Some (astype b1 dt) \<and>
     params net ''W2'' = Some (astype (np_scale ws r2) dt) \<and>
     params net ''b2'' = Some (astype b2 dt) \<and>
     params net ''W3'' = Some (astype (np_scale ws r3) dt) \<and>
     params net ''b3'' = Some (astype b3 dt) \<and>
     dom (params net) = param_keys \<and> reg net = rg \<and> net_dtype net = dt"
proof -
  from assms obtain r1 p1 b1 quarter r2 p2 b2 r3 p3 b3
    where r: "randn rnd 0 [nf, C, fs, fs] = Inr (r1, p1)" "np_zeros nf = Inr b1"
      "randn rnd p1 [quarter * nf, hid] = Inr (r2, p2)" "np_zeros hid = Inr b2"
      "randn rnd p2 [hid, nc] = Inr (r3, p3)" "np_zeros nc = Inr b3"
      and q: "int_of_quarter (H * W) = Inr quarter"
      and net: "net = \<lparr>params = (\<lambda>k. map_option (\<lambda>v. astype v dt)
                  ([''W1'' \<mapsto> np_scale ws r1, ''b1'' \<mapsto> b1,
                    ''W2'' \<mapsto> np_scale ws r2, ''b2'' \<mapsto> b2,
                    ''W3'' \<mapsto> np_scale ws r3, ''b3'' \<mapsto> b3] k)),
                reg = rg, net_dtype = dt\<rparr>"
    unfolding init_def by (auto simp: and_then_Inr_iff Let_def)
  have d: "dom (params net) = param_keys"
    unfolding net param_keys_def by (auto simp: dom_def split: if_splits)
  have n: "0 \<le> nf" "0 \<le> C" "0 \<le> fs" "0 \<le> hid" "0 \<le> nc" "0 \<le> quarter * nf"
    using r by (simp_all add: randn_Inr_iff np_zeros_Inr_iff)
  have s: "shape r1 = [nat nf, nat C, nat fs, nat fs]" "shape b1 = [nat nf]"
     "shape r2 = [nat (quarter * nf), nat hid]" "shape b2 = [nat hid]"
     "shape r3 = [nat hid, nat nc]" "shape b3 = [nat nc]"
     "dtype r1 = Float64" "dtype b1 = Float64" "dtype r2 = Float64"
     "dtype b2 = Float64" "dtype r3 = Float64" "dtype b3 = Float64"
    using r by (simp_all add: randn_Inr_iff np_zeros_Inr_iff)
  have p: "params net ''W1'' = Some (astype (np_scale ws r1) dt)"
     "params net ''b1'' = Some (astype b1 dt)"
     "params net ''W2'' = Some (astype (np_scale ws r2) dt)"
     "params net ''b2'' = Some (astype b2 dt)"
     "params net ''W3'' = Some (astype (np_scale ws r3) dt)"
     "params net ''b3'' = Some (astype b3 dt)"
     "reg net = rg" "net_dtype net = dt"
    unfolding net by simp_all
  show ?thesis
    by (intro exI conjI) (rule q n s p d)+
qed

lemma init_returns_quarter:
  assumes "0 \<le> C" "0 \<le> nf" "0 \<le> fs" "0 \<le> hid" "0 \<le> nc"
    and "int_of_quarter (H * W) = Inr quarter" "0 \<le> quarter"
  shows "\<exists>net. init rnd (C, H, W) nf fs hid nc ws rg dt = Inr net"
proof -
  have "0 \<le> quarter * nf"
    using assms(7,2) by (rule mult_nonneg_nonneg)
  then have "\<not> quarter * nf < 0" by simp
  then show ?thesis
    using assms(1-5) by (simp add: init_def assms(6) randn_def np_zeros_def Let_def)
qed

lemma init_returns:
  assumes "0 \<le> C" "0 \<le> nf" "0 \<le> fs" "0 \<le> hid" "0 \<le> nc" "0 \<le> H * W" "H * W < 2 ^ 53"
  shows "\<exists>net. init rnd (C, H, W) nf fs hid nc ws rg dt = Inr net"
proof -
  have a: "\<bar>H * W\<bar> < 2 ^ 53" using assms(6,7) by simp
  have q: "int_of_quarter (H * W) = Inr (H * W div 4)"
    using int_of_quarter_small [OF a] assms(6) by simp
  have "0 \<le> H * W div 4" using assms(6) by (simp add: pos_imp_zdiv_nonneg_iff)
  with assms(1-5) q show ?thesis by (rule init_returns_quarter)
qed

lemma astype_simps [simp]:
  "shape (astype t d) = shape t" "dtype (astype t d) = d" "vals (astype t d) = vals t"
  by (simp_all add: astype_def)

lemma np_scale_simps [simp]:
  "shape (np_scale r t) = shape t" "dtype (np_scale r t) = dtype t"
  by (simp_all add: np_scale_def)

text \<open>
  Claim C10. When the constructor returns, the parameter dictionary has exactly the
  six keys \<open>W1\<close>, \<open>b1\<close>, \<open>W2\<close>, \<open>b2\<close>, \<open>W3\<close>, \<open>b3\<close>, and every tensor in it has the
  dtype given to the constructor: it is the cast of a tensor that the initialization
  made as float64.
\<close>

theorem constructor_params:
  assumes "init rnd (C, H, W) nf fs hid nc ws rg dt = Inr net"
  shows "dom (params net) = {''W1'', ''b1'', ''W2'', ''b2'', ''W3'', ''b3''} \<and>
         (\<forall>k t. params net k = Some t \<longrightarrow>
            dtype t = dt \<and> (\<exists>t0. dtype t0 = Float64 \<and> t = astype t0 dt)) \<and>
         net_dtype net = dt"
proof -
  from init_Inr [OF assms] obtain r1 b1 r2 b2 r3 b3 where
    d: "dtype r1 = Float64" "dtype b1 = Float64" "dtype r2 = Float64"
       "dtype b2 = Float64" "dtype r3 = Float64" "dtype b3 = Float64"
    and p: "params net ''W1'' = Some (astype (np_scale ws r1) dt)"
     "params net ''b1'' = Some (astype b1 dt)"
     "params net ''W2'' = Some (astype (np_scale ws r2) dt)"
     "params net ''b2'' = Some (astype b2 dt)"
     "params net ''W3'' = Some (astype (np_scale ws r3) dt)"
     "params net ''b3'' = Some (astype b3 dt)"
    and k: "dom (params net) = param_keys" and n: "net_dtype net = dt"
    by blast
  have "dtype t = dt \<and> (\<exists>t0. dtype t0 = Float64 \<and> t = astype t0 dt)"
    if t: "params net k = Some t" for k t
  proof -
    have "k \<in> param_keys" using t k by auto
    then consider "k = ''W1''" | "k = ''b1''" | "k = ''W2''" | "k = ''b2''" | "k = ''W3''"
      | "k = ''b3''"
      unfolding param_keys_def by blast
    then have "\<exists>t0. dtype t0 = Float64 \<and> t = astype t0 dt"
    proof cases
      case 1
      with t p(1) have "t = astype (np_scale ws r1) dt" by simp
      with d(1) show ?thesis by (intro exI [of _ "np_scale ws r1"]) simp
    next
      case 2
      with t p(2) d(2) show ?thesis by (intro exI [of _ b1]) simp
    next
      case 3
      with t p(3) have "t = astype (np_scale ws r2) dt" by simp
      with d(3) show ?thesis by (intro exI [of _ "np_scale ws r2"]) simp
    next
      case 4
      with t p(4) d(4) show ?thesis by (intro exI [of _ b2]) simp
    next
      case 5
      with t p(5) have "t = astype (np_scale ws r3) dt" by simp
      with d(5) show ?thesis by (intro exI [of _ "np_scale ws r3"]) simp
    next
      case 6
      with t p(6) d(6) show ?thesis by (intro exI [of _ b3]) simp
    qed
    then show ?thesis by auto
  qed
  with k n show ?thesis unfolding param_keys_def by blast
qed

theorem constructor_params_witness:
  "\<exists>net. init (\<lambda>_. 1) (3, 32, 32) 32 7 100 10 (1 / 1000) 0 Float32 = Inr net \<and>
         dom (params net) = {''W1'', ''b1'', ''W2'', ''b2'', ''W3'', ''b3''} \<and>
         net_dtype net = Float32"
proof -
  obtain net where h: "init (\<lambda>_. 1) (3, 32, 32) 32 7 100 10 (1 / 1000) 0 Float32 = Inr net"
    using init_returns [of 3 32 7 100 10 32 32 "\<lambda>_. 1" "1 / 1000" 0 Float32] by auto
  from constructor_params [OF h] h show ?thesis by blast
qed


section \<open>The rows of the hidden weight matrix\<close>

lemma pool_halves:
  "pool_out_size H (pool_height pool_param_of) (pool_stride pool_param_of) = H div 2"
  "pool_out_size H (pool_width pool_param_of) (pool_stride pool_param_of) = H div 2"
  by (simp_all add: pool_out_size_def pool_param_of_def)

lemma conv_out_size_odd:
  assumes "odd F"
  shows "conv_out_size H F \<lparr>conv_stride = 1, conv_pad = (F - 1) div 2\<rparr> = H"
proof -
  from assms obtain m where "F = 2 * m + 1" by (auto elim!: oddE)
  then show ?thesis by (simp add: conv_out_size_def)
qed

lemma quarter_even:
  fixes H W :: int
  assumes "even H" "even W"
  shows "(if 0 \<le> H * W then H * W div 4 else - ((- (H * W)) div 4)) = (H div 2) * (W div 2)"
proof -
  from assms obtain a b where H: "H = 2 * a" and W: "W = 2 * b" by (auto elim!: evenE)
  have hw: "H * W = 4 * (a * b)" by (simp add: H W)
  have "(- (4 * (a * b))) div 4 = - (a * b)" by simp
  then have "(if 0 \<le> 4 * (a * b) then 4 * (a * b) div 4 else - ((- (4 * (a * b))) div 4)) = a * b"
    by simp
  then show ?thesis unfolding hw by (simp add: H W)
qed

lemma hidden_rows:
  assumes i: "init rnd (C, H, W) nf fs hid nc ws rg dt = Inr net"
  shows "\<exists>W1 W2 quarter.
           params net ''W1'' = Some W1 \<and> params net ''W2'' = Some W2 \<and>
           shape W1 = [nat nf, nat C, nat fs, nat fs] \<and> 0 \<le> nf \<and> 0 \<le> fs \<and>
           int_of_quarter (H * W) = Inr quarter \<and>
           shape W2 = [nat (quarter * nf), nat hid] \<and>
           conv_param_of W1 = Inr \<lparr>conv_stride = 1, conv_pad = (fs - 1) div 2\<rparr>"
proof -
  from init_Inr [OF i] obtain r1 quarter r2 where
    q: "int_of_quarter (H * W) = Inr quarter" and n: "0 \<le> nf" "0 \<le> fs"
    and s: "shape r1 = [nat nf, nat C, nat fs, nat fs]" "shape r2 = [nat (quarter * nf), nat hid]"
    and p: "params net ''W1'' = Some (astype (np_scale ws r1) dt)"
      "params net ''W2'' = Some (astype (np_scale ws r2) dt)"
    by blast
  have c: "conv_param_of (astype (np_scale ws r1) dt) =
           Inr \<lparr>conv_stride = 1, conv_pad = (fs - 1) div 2\<rparr>"
    using n(2) by (simp add: conv_param_of_def s(1))
  show ?thesis
    using p q n s c
    by (intro exI [of _ "astype (np_scale ws r1) dt"] exI [of _ "astype (np_scale ws r2) dt"]
        exI [of _ quarter]) simp
qed

text \<open>
  Claim C6, as the code has it. When the constructor returns, the first dimension of
  \<open>W2\<close> is \<open>int(H * W / 4) * num_filters\<close>, with the float division of the source;
  while \<open>H * W\<close> is below \<open>2\<^sup>5\<^sup>3\<close> that is the exact quotient, truncated. When moreover
  \<open>H\<close> and \<open>W\<close> are even and the filter size is odd, the convolution that \<open>loss\<close>
  configures from \<open>W1\<close> keeps the \<open>H\<close> by \<open>W\<close> size, and the first dimension of \<open>W2\<close> is
  the flattened size of the 2x2 stride-2 pooling of its \<open>num_filters\<close> maps.
\<close>

theorem hidden_weight_rows:
  assumes "init rnd (C, H, W) nf fs hid nc ws rg dt = Inr net"
  shows "\<exists>W1 W2 quarter cp.
           params net ''W1'' = Some W1 \<and> params net ''W2'' = Some W2 \<and>
           int_of_quarter (H * W) = Inr quarter \<and>
           shape W2 = [nat (quarter * nf), nat hid] \<and>
           conv_param_of W1 = Inr cp \<and>
           (\<bar>H * W\<bar> < 2 ^ 53 \<longrightarrow>
              quarter = (if 0 \<le> H * W then H * W div 4 else - ((- (H * W)) div 4))) \<and>
           (even H \<and> even W \<and> odd fs \<and> \<bar>H * W\<bar> < 2 ^ 53 \<longrightarrow>
              conv_out_size H (int (shape W1 ! 2)) cp = H \<and>
              conv_out_size W (int (shape W1 ! 3)) cp = W \<and>
              quarter * nf =
                int (shape W1 ! 0)
                * pool_out_size (conv_out_size H (int (shape W1 ! 2)) cp)
                    (pool_height pool_param_of) (pool_stride pool_param_of)
                * pool_out_size (conv_out_size W (int (shape W1 ! 3)) cp)
                    (pool_width pool_param_of) (pool_stride pool_param_of))"
proof -
  from hidden_rows [OF assms] obtain W1 W2 quarter where
    p: "params net ''W1'' = Some W1" "params net ''W2'' = Some W2"
    and s1: "shape W1 = [nat nf, nat C, nat fs, nat fs]" and n: "0 \<le> nf" "0 \<le> fs"
    and q: "int_of_quarter (H * W) = Inr quarter"
    and s2: "shape W2 = [nat (quarter * nf), nat hid]"
    and c: "conv_param_of W1 = Inr \<lparr>conv_stride = 1, conv_pad = (fs - 1) div 2\<rparr>"
    by blast
  let ?cp = "\<lparr>conv_stride = 1, conv_pad = (fs - 1) div 2\<rparr>"
  have f: "int (shape W1 ! 2) = fs" "int (shape W1 ! 3) = fs" "int (shape W1 ! 0) = nf"
    using n by (simp_all add: s1)
  have b: "quarter = (if 0 \<le> H * W then H * W div 4 else - ((- (H * W)) div 4))"
    if "\<bar>H * W\<bar> < 2 ^ 53"
    using int_of_quarter_small [OF that] q by simp
  have e: "conv_out_size H (int (shape W1 ! 2)) ?cp = H \<and>
           conv_out_size W (int (shape W1 ! 3)) ?cp = W \<and>
           quarter * nf =
                int (shape W1 ! 0)
                * pool_out_size (conv_out_size H (int (shape W1 ! 2)) ?cp)
                    (pool_height pool_param_of) (pool_stride pool_param_of)
                * pool_out_size (conv_out_size W (int (shape W1 ! 3)) ?cp)
                    (pool_width pool_param_of) (pool_stride pool_param_of)"
    if h: "even H \<and> even W \<and> odd fs \<and> \<bar>H * W\<bar> < 2 ^ 53"
  proof -
    from h have o: "odd fs" and ev: "even H" "even W" and bd: "\<bar>H * W\<bar> < 2 ^ 53" by simp_all
    have "quarter = (H div 2) * (W div 2)"
      using b [OF bd] quarter_even [OF ev] by simp
    then show ?thesis
      unfolding f conv_out_size_odd [OF o] pool_halves by simp
  qed
  show ?thesis
    using p q s2 c b e
    by (intro exI [of _ W1] exI [of _ W2] exI [of _ quarter] exI [of _ ?cp]) blast
qed

theorem hidden_weight_rows_witness:
  "\<exists>net. init (\<lambda>_. 1) (3, 32, 32) 32 7 100 10 (1 / 1000) 0 Float32 = Inr net \<and>
         even (32 :: int) \<and> odd (7 :: int) \<and> \<bar>32 * 32 :: int\<bar> < 2 ^ 53 \<and>
         (\<exists>W2. params net ''W2'' = Some W2 \<and> shape W2 = [8192, 100])"
proof -
  obtain net where h: "init (\<lambda>_. 1) (3, 32, 32) 32 7 100 10 (1 / 1000) 0 Float32 = Inr net"
    using init_returns [of 3 32 7 100 10 32 32 "\<lambda>_. 1" "1 / 1000" 0 Float32] by auto
  have e: "even (32 :: int)" "odd (7 :: int)" "\<bar>32 * 32 :: int\<bar> < 2 ^ 53" by simp_all
  from hidden_weight_rows [OF h] obtain W2 quarter where
    w: "params net ''W2'' = Some W2" "shape W2 = [nat (quarter * 32), nat 100]"
    and q: "\<bar>32 * 32 :: int\<bar> < 2 ^ 53 \<longrightarrow>
              quarter = (if 0 \<le> (32 * 32 :: int) then 32 * 32 div 4 else - ((- (32 * 32)) div 4))"
    by blast
  from q e(3) have "quarter = 256" by simp
  with w have "shape W2 = [8192, 100]" by simp
  with h e w(1) show ?thesis by blast
qed

lemma floorlog_example: "floorlog 2 36028797018963972 = 56"
proof (rule antisym)
  show "floorlog 2 36028797018963972 \<le> 56"
    by (rule floorlog_leI) simp_all
  show "56 \<le> floorlog 2 36028797018963972"
    by (rule floorlog_geI) simp_all
qed

lemma round53_example: "round53 36028797018963972 = 36028797018963968"
  unfolding round53_def Let_def floorlog_example by simp

lemma int_of_quarter_rounds:
  "int_of_quarter (2 * 18014398509481986) = Inr 9007199254740992"
  by (simp add: int_of_quarter_def Let_def round53_example)

lemma W2_rows_of:
  assumes "0 \<le> C" "0 \<le> nf" "0 \<le> fs" "0 \<le> hid" "0 \<le> nc"
    and "int_of_quarter (H * W) = Inr quarter" "0 \<le> quarter"
  shows "(case init rnd (C, H, W) nf fs hid nc ws rg dt of
            Inl e \<Rightarrow> None
          | Inr net \<Rightarrow> map_option shape (params net ''W2'')) = Some [nat (quarter * nf), nat hid]"
proof -
  from init_returns_quarter [OF assms] obtain net
    where h: "init rnd (C, H, W) nf fs hid nc ws rg dt = Inr net" by blast
  from hidden_rows [OF h] assms(6) show ?thesis
    by (auto simp: h)
qed

text \<open>
  Three inputs at which the first dimension of \<open>W2\<close> is not the flattened size of the
  pooled output. A 3 by 3 input with one filter of size 1: \<open>W2\<close> has \<open>int(9 / 4) = 2\<close>
  rows, the pooled map \<open>1 * 1 = 1\<close> entry. A 4 by 4 input with one filter of size 2:
  \<open>W2\<close> has 4 rows; the convolution that \<open>loss\<close> configures gives a 3 by 3 map, the
  pooled map has 1 entry. A 2 by \<open>2\<^sup>5\<^sup>4 + 2\<close> input with one filter of size 1 (and no
  hidden unit): the float division gives \<open>2\<^sup>5\<^sup>3\<close> rows, one less than
  \<open>(H / 2) * (W / 2)\<close>.
\<close>

theorem odd_input_mismatch:
  "(case init (\<lambda>_. 0) (1, 3, 3) 1 1 1 1 1 0 Float64 of
      Inl e \<Rightarrow> None
    | Inr net \<Rightarrow> map_option shape (params net ''W2'')) = Some [2, 1] \<and>
   1 * pool_out_size 3 (pool_height pool_param_of) (pool_stride pool_param_of)
     * pool_out_size 3 (pool_width pool_param_of) (pool_stride pool_param_of) = 1 \<and>
   (case init (\<lambda>_. 0) (1, 4, 4) 1 2 1 1 1 0 Float64 of
      Inl e \<Rightarrow> None
    | Inr net \<Rightarrow> map_option shape (params net ''W2'')) = Some [4, 1] \<and>
   conv_param_of \<lparr>shape = [1, 1, 2, 2], dtype = Float64, vals = [0, 0, 0, 0]\<rparr>
     = Inr \<lparr>conv_stride = 1, conv_pad = 0\<rparr> \<and>
   conv_out_size 4 2 \<lparr>conv_stride = 1, conv_pad = 0\<rparr> = 3 \<and>
   1 * pool_out_size 3 (pool_height pool_param_of) (pool_stride pool_param_of)
     * pool_out_size 3 (pool_width pool_param_of) (pool_stride pool_param_of) \<noteq> 4 \<and>
   (case init (\<lambda>_. 0) (1, 2, 18014398509481986) 1 1 0 1 1 0 Float64 of
      Inl e \<Rightarrow> None
    | Inr net \<Rightarrow> map_option shape (params net ''W2'')) = Some [9007199254740992, 0] \<and>
   1 * ((2 :: int) div 2) * (18014398509481986 div 2) = 9007199254740993"
proof -
  have a: "int_of_quarter (3 * 3) = Inr 2"
    using int_of_quarter_small [of "3 * 3"] by simp
  have b: "int_of_quarter (4 * 4) = Inr 4"
    using int_of_quarter_small [of "4 * 4"] by simp
  note c = int_of_quarter_rounds
  have 1: "(case init (\<lambda>_. 0) (1, 3, 3) 1 1 1 1 1 0 Float64 of
      Inl e \<Rightarrow> None
    | Inr net \<Rightarrow> map_option shape (params net ''W2'')) = Some [2, 1]"
    using W2_rows_of [OF _ _ _ _ _ a, of 1 1 1 1 1 "\<lambda>_. 0" 1 0 Float64] by simp
  have 2: "(case init (\<lambda>_. 0) (1, 4, 4) 1 2 1 1 1 0 Float64 of
      Inl e \<Rightarrow> None
    | Inr net \<Rightarrow> map_option shape (params net ''W2'')) = Some [4, 1]"
    using W2_rows_of [OF _ _ _ _ _ b, of 1 1 2 1 1 "\<lambda>_. 0" 1 0 Float64] by simp
  have 3: "(case init (\<lambda>_. 0) (1, 2, 18014398509481986) 1 1 0 1 1 0 Float64 of
      Inl e \<Rightarrow> None
    | Inr net \<Rightarrow> map_option shape (params net ''W2'')) = Some [9007199254740992, 0]"
    using W2_rows_of [OF _ _ _ _ _ c, of 1 1 1 0 1 "\<lambda>_. 0" 1 0 Float64] by simp
  have 4: "conv_param_of \<lparr>shape = [1, 1, 2, 2], dtype = Float64, vals = [0, 0, 0, 0]\<rparr>
     = Inr \<lparr>conv_stride = 1, conv_pad = 0\<rparr>"
    by (simp add: conv_param_of_def)
  have 5: "conv_out_size 4 2 \<lparr>conv_stride = 1, conv_pad = 0\<rparr> = 3"
    by (simp add: conv_out_size_def)
  show ?thesis
    unfolding 1 2 3 4 5 pool_halves by simp
qed

section \<open>The padding of the convolution\<close>

lemma backward_conv_forward:
  "backward (L\<lparr>conv_relu_pool_forward := c\<rparr>) rg W1 W2 W3 scores cache1 cache2 cache2_relu cache3 y
   = backward L rg W1 W2 W3 scores cache1 cache2 cache2_relu cache3 y"
  by (simp add: backward_def)

lemma loss_conv_call:
  "loss L net X y =
     loss (L\<lparr>conv_relu_pool_forward := \<lambda>x w b cp pp.
              conv_relu_pool_forward L x w b
                \<lparr>conv_stride = 1, conv_pad = (int (shape w ! 2) - 1) div 2\<rparr>
                \<lparr>pool_height = 2, pool_width = 2, pool_stride = 2\<rparr>\<rparr>) net X y"
proof -
  have c: "and_then (conv_param_of W1) (\<lambda>cp. f cp)
           = and_then (conv_param_of W1)
               (\<lambda>cp. f \<lparr>conv_stride = 1, conv_pad = (int (shape W1 ! 2) - 1) div 2\<rparr>)"
    for W1 and f :: "conv_param \<Rightarrow> py_error + loss_result"
    by (simp add: conv_param_of_def Let_def)
  show ?thesis
    unfolding loss_def backward_conv_forward
    by (subst c) (simp add: pool_param_of_def)
qed

text \<open>
  Claim C5, at an even filter size. Whatever the layers, the network, the batch and
  the labels, the only convolution that \<open>loss\<close> runs has stride 1 and padding
  \<open>(F - 1) // 2\<close>, \<open>F\<close> the third dimension of \<open>W1\<close>, before a 2x2 pooling of stride 2.
  For the network built with filter size 2 on a 4 by 4 input, \<open>W1\<close> has shape
  \<open>(1, 1, 2, 2)\<close>, the padding is 0 and not \<open>1 / 2\<close>, and a conventional convolution
  gives a 3 by 3 map: the spatial size is not preserved.
\<close>

theorem even_filter_shrinks:
  "loss L net X y =
     loss (L\<lparr>conv_relu_pool_forward := \<lambda>x w b cp pp.
              conv_relu_pool_forward L x w b
                \<lparr>conv_stride = 1, conv_pad = (int (shape w ! 2) - 1) div 2\<rparr>
                \<lparr>pool_height = 2, pool_width = 2, pool_stride = 2\<rparr>\<rparr>) net X y \<and>
   (case init (\<lambda>_. 0) (1, 4, 4) 1 2 1 1 1 0 Float64 of
      Inl e \<Rightarrow> False
    | Inr net2 \<Rightarrow>
        (case params net2 ''W1'' of
           None \<Rightarrow> False
         | Some W1 \<Rightarrow>
             shape W1 = [1, 1, 2, 2] \<and>
             conv_param_of W1 = Inr \<lparr>conv_stride = 1, conv_pad = 0\<rparr> \<and>
             2 * conv_pad \<lparr>conv_stride = 1, conv_pad = 0\<rparr> \<noteq> int (shape W1 ! 2) - 1 \<and>
             conv_out_size 4 (int (shape W1 ! 2)) \<lparr>conv_stride = 1, conv_pad = 0\<rparr> = 3 \<and>
             conv_out_size 4 (int (shape W1 ! 3)) \<lparr>conv_stride = 1, conv_pad = 0\<rparr> = 3))"
proof -
  obtain net2 where h: "init (\<lambda>_. 0) (1, 4, 4) 1 2 1 1 1 0 Float64 = Inr net2"
    using init_returns [of 1 1 2 1 1 4 4 "\<lambda>_. 0" 1 0 Float64] by auto
  from hidden_rows [OF h] obtain W1 where
    w: "params net2 ''W1'' = Some W1" "shape W1 = [nat 1, nat 1, nat 2, nat 2]"
      "conv_param_of W1 = Inr \<lparr>conv_stride = 1, conv_pad = (2 - 1) div 2\<rparr>"
    by blast
  have s: "shape W1 = [1, 1, 2, 2]"
    using w(2) by simp
  have p: "conv_param_of W1 = Inr \<lparr>conv_stride = 1, conv_pad = 0\<rparr>"
    using w(3) by simp
  have f: "int (shape W1 ! 2) = 2" "int (shape W1 ! 3) = 2"
    by (simp_all add: s)
  have c: "conv_out_size 4 2 \<lparr>conv_stride = 1, conv_pad = 0\<rparr> = 3"
    by (simp add: conv_out_size_def)
  have "case init (\<lambda>_. 0) (1, 4, 4) 1 2 1 1 1 0 Float64 of
      Inl e \<Rightarrow> False
    | Inr net2 \<Rightarrow>
        (case params net2 ''W1'' of
           None \<Rightarrow> False
         | Some W1 \<Rightarrow>
             shape W1 = [1, 1, 2, 2] \<and>
             conv_param_of W1 = Inr \<lparr>conv_stride = 1, conv_pad = 0\<rparr> \<and>
             2 * conv_pad \<lparr>conv_stride = 1, conv_pad = 0\<rparr> \<noteq> int (shape W1 ! 2) - 1 \<and>
             conv_out_size 4 (int (shape W1 ! 2)) \<lparr>conv_stride = 1, conv_pad = 0\<rparr> = 3 \<and>
             conv_out_size 4 (int (shape W1 ! 3)) \<lparr>conv_stride = 1, conv_pad = 0\<rparr> = 3)"
    unfolding h sum.case w(1) option.case f c using s p by simp
  with loss_conv_call [of L net X y] show ?thesis
    by (rule conjI)
qed

end
